theory Spec2Isabelle
  imports Main
begin

section \<open>Strings\<close>

text \<open>
  JavaScript strings are modelled as \<open>string\<close> (a list of characters). The three string
  tests the routes use are \<open>String.prototype.startsWith\<close>, \<open>String.prototype.includes\<close>
  and strict equality; all compare code units exactly (they are case-sensitive).
\<close>

definition startsWith :: "string \<Rightarrow> string \<Rightarrow> bool" where
  "startsWith s p = (take (length p) s = p)"

fun includesStr :: "string \<Rightarrow> string \<Rightarrow> bool" where
  "includesStr [] t = (t = [])"
| "includesStr (c # s) t = (startsWith (c # s) t \<or> includesStr s t)"

section \<open>Classification and formatting (routes/files.js)\<close>

text \<open>
  \<^verbatim>\<open>
  function getFileCategory(mimeType) {
    if (mimeType.startsWith('image/')) return 'image';
    if (mimeType.startsWith('video/')) return 'video';
    if (mimeType.startsWith('audio/')) return 'audio';
    if (mimeType === 'application/pdf') return 'pdf';
    if (mimeType.startsWith('text/')) return 'text';
    if (mimeType.includes('word') || mimeType.includes('document')) return 'document';
    if (mimeType.includes('zip')) return 'archive';
    return 'other';
  }
  \<close>
\<close>

definition getFileCategory :: "string \<Rightarrow> string" where
  "getFileCategory mimeType =
     (if startsWith mimeType ''image/'' then ''image''
      else if startsWith mimeType ''video/'' then ''video''
      else if startsWith mimeType ''audio/'' then ''audio''
      else if mimeType = ''application/pdf'' then ''pdf''
      else if startsWith mimeType ''text/'' then ''text''
      else if includesStr mimeType ''word'' \<or> includesStr mimeType ''document'' then ''document''
      else if includesStr mimeType ''zip'' then ''archive''
      else ''other'')"

text \<open>
  \<^verbatim>\<open>
  function formatFileSize(bytes) {
    if (bytes === 0) return '0 Bytes';
    const k = 1024;
    const sizes = ['Bytes', 'KB', 'MB', 'GB'];
    const i = Math.floor(Math.log(bytes) / Math.log(k));
    return parseFloat((bytes / Math.pow(k, i)).toFixed(2)) + ' ' + sizes[i];
  }
  \<close>
  The argument is a file size or a sum of file sizes: a non-negative integer, modelled as
  \<open>nat\<close>.

  \<^item> \<open>unitIndex\<close> is \<open>Math.floor(Math.log(bytes) / Math.log(k))\<close> computed on the
    mathematical reals, that is the exact \<open>\<lfloor>log\<^bsub>1024\<^esub> bytes\<rfloor>\<close>. The rounding of the two
    floating-point logarithms is not modelled.
  \<^item> \<open>bytes / Math.pow(k, i)\<close> divides by a power of two, which is exact in binary floating
    point, so the quotient is the rational \<open>bytes / 1024 ^ i\<close>; \<open>toFixed2\<close> takes the
    numerator and the denominator. \<open>Number.prototype.toFixed(2)\<close> picks the integer \<open>n\<close>
    for which \<open>n / 100\<close> is closest to the number, the larger one on a tie, and prints it
    with two digits after the point.
  \<^item> \<open>parseFloat(s) + ' '\<close> parses the two-decimal string back into a number and converts
    that number to a string again. Number-to-string conversion prints the shortest decimal
    that identifies the number, so the digits printed are those of \<open>s\<close> without the trailing
    zeros of the fraction, and without the point when no fraction digit is left:
    \<open>numberToString\<close>.
  \<^item> \<open>sizes[i]\<close> for \<open>i\<close> beyond the table is \<open>undefined\<close>, which string concatenation
    prints as the text \<open>undefined\<close>.
\<close>

definition digit :: "nat \<Rightarrow> char" where
  "digit d = char_of (48 + d)"

fun showNat :: "nat \<Rightarrow> string" where
  "showNat n = (if n < 10 then [digit n] else showNat (n div 10) @ [digit (n mod 10)])"

declare showNat.simps [simp del]

fun unitIndex :: "nat \<Rightarrow> nat" where
  "unitIndex n = (if n < 1024 then 0 else Suc (unitIndex (n div 1024)))"

declare unitIndex.simps [simp del]

definition roundHundredths :: "nat \<Rightarrow> nat \<Rightarrow> nat" where
  "roundHundredths num den = (200 * num + den) div (2 * den)"

definition toFixed2 :: "nat \<Rightarrow> nat \<Rightarrow> string" where
  "toFixed2 num den =
     (let h = roundHundredths num den
      in showNat (h div 100) @ ''.'' @ [digit (h mod 100 div 10), digit (h mod 10)])"

definition numberToString :: "string \<Rightarrow> string" where
  "numberToString s =
     (let t = rev (dropWhile (\<lambda>c. c = CHR ''0'') (rev s))
      in if t \<noteq> [] \<and> last t = CHR ''.'' then butlast t else t)"

definition sizes :: "string list" where
  "sizes = [''Bytes'', ''KB'', ''MB'', ''GB'']"

definition sizesAt :: "nat \<Rightarrow> string" where
  "sizesAt i = (if i < length sizes then sizes ! i else ''undefined'')"

definition formatFileSize :: "nat \<Rightarrow> string" where
  "formatFileSize bytes =
     (if bytes = 0 then ''0 Bytes''
      else let k = 1024; i = unitIndex bytes
           in numberToString (toFixed2 bytes (k ^ i)) @ '' '' @ sizesAt i)"

text \<open>
  The formatting the code performs, stated on the rounded number of hundredths: the
  integer part, then the fraction with its trailing zeros dropped (no point when nothing
  is left of it).
\<close>

definition showHundredths :: "nat \<Rightarrow> string" where
  "showHundredths h =
     showNat (h div 100) @
       (if h mod 100 = 0 then []
        else if h mod 10 = 0 then ''.'' @ [digit (h mod 100 div 10)]
        else ''.'' @ [digit (h mod 100 div 10), digit (h mod 10)])"

section \<open>The SQLite store (database-simple.js)\<close>

text \<open>
  The two tables, with the columns of the \<open>CREATE TABLE\<close> statements. Column names carry
  the prefix \<open>u_\<close> (table \<open>users\<close>) or \<open>f_\<close> (table \<open>shared_files\<close>). A nullable
  column that the code can leave \<open>NULL\<close> is an \<open>option\<close>. A table is the list of its
  rows in ascending rowid order, together with its \<open>sqlite_sequence\<close> entry (the largest
  rowid the table has ever held), which \<open>AUTOINCREMENT\<close> consults.
  \<open>CURRENT_TIMESTAMP\<close> is the clock reading, in seconds, passed to each statement.
\<close>

type_synonym timestamp = int

record user_row =
  u_id :: nat
  u_user_id :: string
  u_username :: "string option"
  u_email :: "string option"
  u_profile_picture_path :: "string option"
  u_profile_picture_url :: "string option"
  u_created_at :: timestamp
  u_updated_at :: timestamp

record file_row =
  f_id :: nat
  f_file_id :: string
  f_user_id :: string
  f_original_name :: string
  f_file_name :: string
  f_file_path :: string
  f_file_url :: string
  f_file_size :: nat
  f_mime_type :: string
  f_description :: "string option"
  f_category :: "string option"
  f_download_count :: nat
  f_is_public :: bool
  f_created_at :: timestamp
  f_last_accessed :: timestamp

record database =
  users :: "user_row list"
  users_seq :: nat
  shared_files :: "file_row list"
  shared_files_seq :: nat

definition empty_db :: database where
  "empty_db = \<lparr>users = [], users_seq = 0, shared_files = [], shared_files_seq = 0\<rparr>"

text \<open>
  Every helper returns a promise: \<open>if (err) reject(err); else resolve(...)\<close>. A rejected
  promise is \<open>Inl\<close>. The flag \<open>flt\<close> of a helper says that the engine reports an error for
  the statement for a reason outside the tables (I/O failure, locked or corrupt file); the
  statement then changes nothing. A violated \<open>UNIQUE\<close> constraint is decided by the tables.
\<close>

datatype error = SqliteError | SqliteConstraint

definition next_rowid :: "nat \<Rightarrow> nat list \<Rightarrow> nat" where
  "next_rowid seq ids = Suc (fold max ids seq)"

text \<open>\<^verbatim>\<open>SELECT * FROM users WHERE user_id = ?\<close> through \<open>db.get\<close>: the first row or \<open>undefined\<close>.\<close>

definition getUser :: "bool \<Rightarrow> string \<Rightarrow> database \<Rightarrow> error + user_row option" where
  "getUser flt userId db =
     (if flt then Inl SqliteError
      else Inr (find (\<lambda>r. u_user_id r = userId) (users db)))"

text \<open>
  \<^verbatim>\<open>
  INSERT OR REPLACE INTO users
  (user_id, username, email, profile_picture_path, profile_picture_url, updated_at)
  VALUES (?, ?, ?, ?, ?, CURRENT_TIMESTAMP)
  \<close>
  \<open>OR REPLACE\<close> deletes every row whose \<open>user_id\<close> collides with the new one and then
  inserts. The statement names neither \<open>id\<close> nor \<open>created_at\<close>: the new row takes the
  next \<open>AUTOINCREMENT\<close> rowid and the column default \<open>CURRENT_TIMESTAMP\<close>. The promise
  resolves to \<open>{ id: this.lastID, userId }\<close>.
\<close>

definition upsertUser ::
  "bool \<Rightarrow> timestamp \<Rightarrow> string \<Rightarrow> string option \<Rightarrow> string option \<Rightarrow> string option \<Rightarrow>
   string option \<Rightarrow> database \<Rightarrow> (error + nat \<times> string) \<times> database" where
  "upsertUser flt t userId username email profilePicturePath profilePictureUrl db =
     (if flt then (Inl SqliteError, db)
      else
        let newid = next_rowid (users_seq db) (map u_id (users db));
            row = \<lparr>u_id = newid, u_user_id = userId, u_username = username, u_email = email,
                   u_profile_picture_path = profilePicturePath,
                   u_profile_picture_url = profilePictureUrl,
                   u_created_at = t, u_updated_at = t\<rparr>
        in (Inr (newid, userId),
            db\<lparr>users := filter (\<lambda>r. u_user_id r \<noteq> userId) (users db) @ [row],
               users_seq := newid\<rparr>))"

text \<open>
  The argument object of \<open>createSharedFile\<close>, fields prefixed \<open>d_\<close>.
  \<^verbatim>\<open>
  INSERT INTO shared_files
  (file_id, user_id, original_name, file_name, file_path, file_url,
   file_size, mime_type, description, category)
  VALUES (?, ?, ?, ?, ?, ?, ?, ?, ?, ?)
  \<close>
  \<open>file_id\<close> is \<open>UNIQUE\<close>: a second row with the same value is refused. The columns left
  out take their defaults: \<open>download_count\<close> 0, \<open>is_public\<close> 0, both timestamps
  \<open>CURRENT_TIMESTAMP\<close>.
\<close>

record file_data =
  d_fileId :: string
  d_userId :: string
  d_originalName :: string
  d_fileName :: string
  d_filePath :: string
  d_fileUrl :: string
  d_fileSize :: nat
  d_mimeType :: string
  d_description :: "string option"
  d_category :: "string option"

definition createSharedFile ::
  "bool \<Rightarrow> timestamp \<Rightarrow> file_data \<Rightarrow> database \<Rightarrow> (error + nat \<times> string) \<times> database" where
  "createSharedFile flt t fileData db =
     (if flt then (Inl SqliteError, db)
      else if d_fileId fileData \<in> set (map f_file_id (shared_files db))
      then (Inl SqliteConstraint, db)
      else
        let newid = next_rowid (shared_files_seq db) (map f_id (shared_files db));
            row = \<lparr>f_id = newid, f_file_id = d_fileId fileData, f_user_id = d_userId fileData,
                   f_original_name = d_originalName fileData, f_file_name = d_fileName fileData,
                   f_file_path = d_filePath fileData, f_file_url = d_fileUrl fileData,
                   f_file_size = d_fileSize fileData, f_mime_type = d_mimeType fileData,
                   f_description = d_description fileData, f_category = d_category fileData,
                   f_download_count = 0, f_is_public = False,
                   f_created_at = t, f_last_accessed = t\<rparr>
        in (Inr (newid, d_fileId fileData),
            db\<lparr>shared_files := shared_files db @ [row], shared_files_seq := newid\<rparr>))"

text \<open>\<^verbatim>\<open>SELECT * FROM shared_files WHERE file_id = ?\<close> through \<open>db.get\<close>.\<close>

definition getSharedFile :: "bool \<Rightarrow> string \<Rightarrow> database \<Rightarrow> error + file_row option" where
  "getSharedFile flt fileId db =
     (if flt then Inl SqliteError
      else Inr (find (\<lambda>r. f_file_id r = fileId) (shared_files db)))"

text \<open>
  \<open>ORDER BY created_at DESC\<close>: a sort on the negated timestamp. SQL leaves the order of
  rows with equal \<open>created_at\<close> open; the model keeps them in rowid order (the sort is
  stable). \<open>LIMIT n OFFSET m\<close>: a negative limit means no limit, a negative offset none.
\<close>

definition order_by_created_at_desc :: "file_row list \<Rightarrow> file_row list" where
  "order_by_created_at_desc rows = sort_key (\<lambda>r. - f_created_at r) rows"

definition limit_offset :: "int \<Rightarrow> int \<Rightarrow> 'a list \<Rightarrow> 'a list" where
  "limit_offset lim off rows =
     (let rest = drop (nat off) rows in if lim < 0 then rest else take (nat lim) rest)"

definition getUserSharedFiles ::
  "bool \<Rightarrow> string \<Rightarrow> int \<Rightarrow> int \<Rightarrow> database \<Rightarrow> error + file_row list" where
  "getUserSharedFiles flt userId lim off db =
     (if flt then Inl SqliteError
      else Inr (limit_offset lim off
             (order_by_created_at_desc (filter (\<lambda>r. f_user_id r = userId) (shared_files db)))))"

text \<open>
  \<^verbatim>\<open>DELETE FROM shared_files WHERE file_id = ? AND user_id = ?\<close>; the promise resolves to
  \<open>{ changes: this.changes }\<close>, the number of rows deleted.
\<close>

definition deleteSharedFile ::
  "bool \<Rightarrow> string \<Rightarrow> string \<Rightarrow> database \<Rightarrow> (error + nat) \<times> database" where
  "deleteSharedFile flt fileId userId db =
     (if flt then (Inl SqliteError, db)
      else
        let hit = (\<lambda>r. f_file_id r = fileId \<and> f_user_id r = userId)
        in (Inr (length (filter hit (shared_files db))),
            db\<lparr>shared_files := filter (\<lambda>r. \<not> hit r) (shared_files db)\<rparr>))"

text \<open>
  \<^verbatim>\<open>
  UPDATE shared_files
  SET download_count = download_count + 1, last_accessed = CURRENT_TIMESTAMP
  WHERE file_id = ?
  \<close>
  resolving to \<open>{ changes: this.changes }\<close>, the number of rows updated. \<open>bump\<close> is the
  \<open>SET\<close> clause, one assignment list applied to a row in a single statement.
\<close>

definition bump :: "timestamp \<Rightarrow> file_row \<Rightarrow> file_row" where
  "bump t r = r\<lparr>f_download_count := f_download_count r + 1, f_last_accessed := t\<rparr>"

definition incrementDownloadCount ::
  "bool \<Rightarrow> timestamp \<Rightarrow> string \<Rightarrow> database \<Rightarrow> (error + nat) \<times> database" where
  "incrementDownloadCount flt t fileId db =
     (if flt then (Inl SqliteError, db)
      else
        (Inr (length (filter (\<lambda>r. f_file_id r = fileId) (shared_files db))),
         db\<lparr>shared_files :=
              map (\<lambda>r. if f_file_id r = fileId then bump t r else r) (shared_files db)\<rparr>))"

text \<open>
  \<^verbatim>\<open>
  SELECT COUNT(*) as total_files, SUM(file_size) as total_size,
         SUM(download_count) as total_downloads
  FROM shared_files WHERE user_id = ?
  \<close>
  \<open>COUNT(*)\<close> of no rows is 0; \<open>SUM\<close> of no rows is \<open>NULL\<close>.
\<close>

record stats_row =
  total_files :: nat
  total_size :: "nat option"
  total_downloads :: "nat option"

definition sql_sum :: "nat list \<Rightarrow> nat option" where
  "sql_sum xs = (if xs = [] then None else Some (sum_list xs))"

definition getUserFileStats :: "bool \<Rightarrow> string \<Rightarrow> database \<Rightarrow> error + stats_row" where
  "getUserFileStats flt userId db =
     (if flt then Inl SqliteError
      else
        let rows = filter (\<lambda>r. f_user_id r = userId) (shared_files db)
        in Inr \<lparr>total_files = length rows,
                 total_size = sql_sum (map f_file_size rows),
                 total_downloads = sql_sum (map f_download_count rows)\<rparr>)"

text \<open>
  SQLite's \<open>LIKE\<close> without an \<open>ESCAPE\<close> clause: in the pattern \<open>%\<close> matches any run of
  characters, \<open>_\<close> matches any single character, and any other character matches itself,
  upper and lower case of the 26 ASCII letters being the same. \<open>LIKE\<close> on a \<open>NULL\<close>
  column is not true.
\<close>

definition lower_ascii :: "char \<Rightarrow> char" where
  "lower_ascii c =
     (case map_of (zip ''ABCDEFGHIJKLMNOPQRSTUVWXYZ'' ''abcdefghijklmnopqrstuvwxyz'') c of
        None \<Rightarrow> c | Some l \<Rightarrow> l)"

fun like :: "string \<Rightarrow> string \<Rightarrow> bool" where
  "like [] s = (s = [])"
| "like (p # ps) [] = (p = CHR ''%'' \<and> like ps [])"
| "like (p # ps) (c # s) =
     (if p = CHR ''%'' then like ps (c # s) \<or> like (p # ps) s
      else (p = CHR ''_'' \<or> lower_ascii p = lower_ascii c) \<and> like ps s)"

definition like_opt :: "string \<Rightarrow> string option \<Rightarrow> bool" where
  "like_opt pat v = (case v of None \<Rightarrow> False | Some s \<Rightarrow> like pat s)"

text \<open>
  \<^verbatim>\<open>
  SELECT * FROM shared_files
  WHERE user_id = ? AND (original_name LIKE ? OR description LIKE ? OR category LIKE ?)
  ORDER BY created_at DESC
  LIMIT 20
  \<close>
  with the three pattern parameters all \<^verbatim>\<open>`%${searchTerm}%`\<close>.
\<close>

definition searchFiles :: "bool \<Rightarrow> string \<Rightarrow> string \<Rightarrow> database \<Rightarrow> error + file_row list" where
  "searchFiles flt userId searchTerm db =
     (if flt then Inl SqliteError
      else
        let pat = ''%'' @ searchTerm @ ''%''
        in Inr (take 20 (order_by_created_at_desc
             (filter (\<lambda>r. f_user_id r = userId \<and>
                           (like pat (f_original_name r) \<or> like_opt pat (f_description r) \<or>
                            like_opt pat (f_category r)))
                     (shared_files db)))))"

section \<open>The routes' surroundings: clock, identifiers, file system\<close>

text \<open>
  A route handler runs against the database and the \<open>uploads\<close> directory tree. The tree is
  a map from the server-relative path of a file (\<open>uploads/shared/\<dots>\<close>,
  \<open>uploads/profiles/\<dots>\<close>) to its content; the handlers prefix every path with the same
  directory (\<open>path.join(__dirname, '..', \<dots>)\<close>), which the model leaves out. The world
  also keeps the list of the effects performed so far, in order, so that the order of two
  effects of one handler can be stated.

  What a handler cannot decide itself comes from an \<open>env\<close>: the clock reading, the value
  \<open>uuidv4()\<close> returns, and for each operation of the file system or the database whether
  it fails this time (throws, or rejects its promise). A failing operation changes nothing.

  An operation of the file system that fails throws an \<open>Error\<close> whose \<open>message\<close> the
  \<open>catch\<close> blocks of the two upload routes read. Node builds it from the error code, the
  system call and, for \<open>open\<close> and \<open>stat\<close>, the absolute path, which holds the
  installation directory, the caller's \<open>userId\<close> (profile pictures) and the extension of
  the uploaded file's name. The model takes the whole message from the \<open>env\<close>
  (\<open>env_message\<close>), so that it can be any text; a failing file-system operation is
  \<open>Inl\<close> of that message.
\<close>

type_synonym bytes = "nat list"

datatype event =
    FsWrite string
  | FsRemove string
  | DbCreateSharedFile string
  | DbDeleteSharedFile string string
  | DbIncrementDownloadCount string
  | DbUpsertUser string

record world =
  db :: database
  files :: "string \<Rightarrow> bytes option"
  trace :: "event list"

definition empty_world :: world where
  "empty_world = \<lparr>db = empty_db, files = (\<lambda>p. None), trace = []\<rparr>"

datatype op =
    OpWriteFile | OpStat | OpRemove
  | OpGetUser | OpUpsertUser | OpCreateSharedFile | OpGetSharedFile | OpGetUserSharedFiles
  | OpDeleteSharedFile | OpIncrementDownloadCount | OpGetUserFileStats | OpSearchFiles

record env =
  env_now :: timestamp
  env_uuid :: string
  env_fails :: "op \<Rightarrow> bool"
  env_message :: "op \<Rightarrow> string"

definition fs_writeFile :: "env \<Rightarrow> string \<Rightarrow> bytes \<Rightarrow> world \<Rightarrow> string + world" where
  "fs_writeFile e path content w =
     (if env_fails e OpWriteFile then Inl (env_message e OpWriteFile)
      else Inr (w\<lparr>files := (files w)(path := Some content), trace := trace w @ [FsWrite path]\<rparr>))"

definition fs_stat :: "env \<Rightarrow> string \<Rightarrow> world \<Rightarrow> string + nat" where
  "fs_stat e path w =
     (if env_fails e OpStat then Inl (env_message e OpStat)
      else case files w path of
             None \<Rightarrow> Inl (env_message e OpStat)
           | Some content \<Rightarrow> Inr (length content))"

definition fs_pathExists :: "string \<Rightarrow> world \<Rightarrow> bool" where
  "fs_pathExists path w = (files w path \<noteq> None)"

definition fs_remove :: "env \<Rightarrow> string \<Rightarrow> world \<Rightarrow> string + world" where
  "fs_remove e path w =
     (if env_fails e OpRemove then Inl (env_message e OpRemove)
      else Inr (w\<lparr>files := (files w)(path := None), trace := trace w @ [FsRemove path]\<rparr>))"

text \<open>The database helpers, run on the world: a statement that succeeds is logged.\<close>

definition db_run ::
  "event \<Rightarrow> (database \<Rightarrow> (error + 'a) \<times> database) \<Rightarrow> world \<Rightarrow> (error + 'a) \<times> world" where
  "db_run ev stmt w =
     (case stmt (db w) of
        (Inl err, _) \<Rightarrow> (Inl err, w)
      | (Inr r, db') \<Rightarrow> (Inr r, w\<lparr>db := db', trace := trace w @ [ev]\<rparr>))"

text \<open>
  \<open>path.extname\<close> of Node (POSIX): the text from the last \<open>.\<close> of the last path segment
  to its end; empty when that segment has no \<open>.\<close>, or only a leading one, or is \<open>..\<close>.
\<close>

definition basename :: "string \<Rightarrow> string" where
  "basename p =
     rev (takeWhile (\<lambda>c. c \<noteq> CHR ''/'') (dropWhile (\<lambda>c. c = CHR ''/'') (rev p)))"

definition extname :: "string \<Rightarrow> string" where
  "extname p =
     (let b = basename p;
          e = rev (takeWhile (\<lambda>c. c \<noteq> CHR ''.'') (rev b));
          stem = take (length b - Suc (length e)) b
      in if CHR ''.'' \<notin> set b \<or> stem = [] \<or> b = ''..'' then [] else CHR ''.'' # e)"

text \<open>
  A value of the request that may be missing is an \<open>option\<close>; \<open>!v\<close> holds of a missing
  value and of the empty string. \<open>v || null\<close> and \<open>v || ''\<close> replace both.
\<close>

definition truthy :: "string option \<Rightarrow> bool" where
  "truthy v = (case v of None \<Rightarrow> False | Some s \<Rightarrow> s \<noteq> [])"

definition or_null :: "string option \<Rightarrow> string option" where
  "or_null v = (if truthy v then v else None)"

definition or_empty :: "string option \<Rightarrow> string" where
  "or_empty v = (case v of None \<Rightarrow> [] | Some s \<Rightarrow> s)"

text \<open>\<open>n || 0\<close> on a number or \<open>null\<close>.\<close>

definition or_zero :: "nat option \<Rightarrow> nat" where
  "or_zero v = (case v of None \<Rightarrow> 0 | Some n \<Rightarrow> n)"

text \<open>
  \<open>req.file\<close> as multer's memory storage leaves it: \<open>size\<close> is the length of \<open>buffer\<close>.
\<close>

record upload =
  up_originalname :: string
  up_mimetype :: string
  up_buffer :: bytes

definition up_size :: "upload \<Rightarrow> nat" where
  "up_size f = length (up_buffer f)"

text \<open>
  The responses of the routes modelled here. \<open>Json_error c m\<close> is
  \<open>res.status(c).json({ error: m })\<close>, and \<open>Json_ok m\<close> is
  \<open>{ success: true, message: m }\<close>.
\<close>

record file_info =
  i_fileId :: string
  i_originalName :: string
  i_fileSize :: nat
  i_formattedSize :: string
  i_mimeType :: string
  i_category :: "string option"
  i_description :: "string option"
  i_downloadCount :: nat
  i_fileUrl :: string
  i_uploadedAt :: timestamp

record recent_info =
  r_fileId :: string
  r_originalName :: string
  r_fileSize :: nat
  r_formattedSize :: string
  r_category :: "string option"
  r_uploadedAt :: timestamp

record stats_info =
  s_totalFiles :: nat
  s_totalSize :: nat
  s_formattedTotalSize :: string
  s_totalDownloads :: nat
  s_recentFiles :: "recent_info list"

datatype response =
    Json_error nat string
  | Json_ok string
  | Json_uploaded string string string string nat string string string timestamp
  | Json_picture string nat
  | Json_stats stats_info
  | Json_results string "file_info list" nat
  | Send_file string string string

section \<open>The routes of routes/files.js\<close>

text \<open>
  \<open>POST /upload\<close>. The success response carries \<open>fileId\<close>, \<open>originalName\<close>,
  \<open>fileName\<close>, \<open>fileUrl\<close>, \<open>fileSize\<close>, \<open>formattedSize\<close>, \<open>mimeType\<close>,
  \<open>category\<close> and \<open>uploadedAt\<close>, in this order. No branch of the handler, and no branch
  of its \<open>catch\<close>, removes a file.

  The \<open>catch\<close> block:
  \<^verbatim>\<open>
  if (error.message.includes('File type not allowed')) {
    return res.status(400).json({ error: error.message });
  }
  res.status(500).json({ error: 'Failed to upload file', message: ... });
  \<close>
  The 500 answer has a second field, \<open>message\<close> (the error's message in development
  mode, a fixed text otherwise), which the model leaves out.
  \<open>files_catch\<close> is this block on the message of a file-system error. A rejected
  database promise carries SQLite's message, which is made of the result code and the
  engine's own text (for the constraint, the names of table and column) and holds no text
  of the request; it does not contain the text tested, and the handler answers 500.
\<close>

definition files_catch :: "string \<Rightarrow> response" where
  "files_catch message =
     (if includesStr message ''File type not allowed'' then Json_error 400 message
      else Json_error 500 ''Failed to upload file'')"

definition files_upload ::
  "env \<Rightarrow> string option \<Rightarrow> string option \<Rightarrow> upload option \<Rightarrow> world \<Rightarrow> response \<times> world" where
  "files_upload e userId description file w =
     (case userId of
        None \<Rightarrow> (Json_error 400 ''User ID is required'', w)
      | Some u \<Rightarrow>
          if u = [] then (Json_error 400 ''User ID is required'', w)
          else case file of
            None \<Rightarrow> (Json_error 400 ''No file uploaded'', w)
          | Some f \<Rightarrow>
              let fileId = env_uuid e;
                  fileExtension = extname (up_originalname f);
                  fileName = fileId @ fileExtension;
                  filePath = ''uploads/shared/'' @ fileName
              in case fs_writeFile e filePath (up_buffer f) w of
                   Inl message \<Rightarrow> (files_catch message, w)
                 | Inr w1 \<Rightarrow>
                     let fileUrl = ''/uploads/shared/'' @ fileName;
                         category = getFileCategory (up_mimetype f);
                         fileData = \<lparr>d_fileId = fileId, d_userId = u,
                                     d_originalName = up_originalname f, d_fileName = fileName,
                                     d_filePath = ''uploads/shared/'' @ fileName,
                                     d_fileUrl = fileUrl, d_fileSize = up_size f,
                                     d_mimeType = up_mimetype f,
                                     d_description = Some (or_empty description),
                                     d_category = Some category\<rparr>
                     in case db_run (DbCreateSharedFile fileId)
                               (createSharedFile (env_fails e OpCreateSharedFile) (env_now e) fileData)
                               w1 of
                          (Inl err, w2) \<Rightarrow> (Json_error 500 ''Failed to upload file'', w2)
                        | (Inr r, w2) \<Rightarrow>
                            (Json_uploaded fileId (up_originalname f) fileName fileUrl (up_size f)
                               (formatFileSize (up_size f)) (up_mimetype f) category (env_now e),
                             w2))"

text \<open>
  \<open>GET /download/:fileId\<close>; \<open>Send_file path mime name\<close> is the file sent with its
  \<open>Content-Type\<close> and \<open>Content-Disposition\<close> headers.
\<close>

definition files_download :: "env \<Rightarrow> string \<Rightarrow> world \<Rightarrow> response \<times> world" where
  "files_download e fileId w =
     (case getSharedFile (env_fails e OpGetSharedFile) fileId (db w) of
        Inl err \<Rightarrow> (Json_error 500 ''Internal server error'', w)
      | Inr None \<Rightarrow> (Json_error 404 ''File not found'', w)
      | Inr (Some file) \<Rightarrow>
          let filePath = f_file_path file
          in if \<not> fs_pathExists filePath w then (Json_error 404 ''File not found on disk'', w)
             else case db_run (DbIncrementDownloadCount fileId)
                         (incrementDownloadCount (env_fails e OpIncrementDownloadCount)
                            (env_now e) fileId) w of
                    (Inl err, w1) \<Rightarrow> (Json_error 500 ''Internal server error'', w1)
                  | (Inr r, w1) \<Rightarrow>
                      (Send_file filePath (f_mime_type file) (f_original_name file), w1))"

text \<open>
  \<open>DELETE /:fileId\<close>: look the row up, check the owner, remove the file from disk, then
  delete the row. The handler does not read \<open>changes\<close>.
\<close>

definition files_delete :: "env \<Rightarrow> string \<Rightarrow> string option \<Rightarrow> world \<Rightarrow> response \<times> world" where
  "files_delete e fileId userId w =
     (case userId of
        None \<Rightarrow> (Json_error 400 ''User ID is required'', w)
      | Some u \<Rightarrow>
          if u = [] then (Json_error 400 ''User ID is required'', w)
          else case getSharedFile (env_fails e OpGetSharedFile) fileId (db w) of
            Inl err \<Rightarrow> (Json_error 500 ''Internal server error'', w)
          | Inr None \<Rightarrow> (Json_error 404 ''File not found'', w)
          | Inr (Some file) \<Rightarrow>
              if f_user_id file \<noteq> u
              then (Json_error 403 ''Unauthorized - you can only delete your own files'', w)
              else
                let filePath = f_file_path file
                in case (if fs_pathExists filePath w then fs_remove e filePath w else Inr w) of
                     Inl err \<Rightarrow> (Json_error 500 ''Internal server error'', w)
                   | Inr w1 \<Rightarrow>
                       (case db_run (DbDeleteSharedFile fileId u)
                               (deleteSharedFile (env_fails e OpDeleteSharedFile) fileId u) w1 of
                          (Inl err, w2) \<Rightarrow> (Json_error 500 ''Internal server error'', w2)
                        | (Inr r, w2) \<Rightarrow> (Json_ok ''File deleted successfully'', w2)))"

text \<open>\<open>GET /stats/:userId\<close>.\<close>

definition recent_of :: "file_row \<Rightarrow> recent_info" where
  "recent_of file =
     \<lparr>r_fileId = f_file_id file, r_originalName = f_original_name file,
      r_fileSize = f_file_size file, r_formattedSize = formatFileSize (f_file_size file),
      r_category = f_category file, r_uploadedAt = f_created_at file\<rparr>"

definition files_stats :: "env \<Rightarrow> string \<Rightarrow> world \<Rightarrow> response \<times> world" where
  "files_stats e userId w =
     (case getUserFileStats (env_fails e OpGetUserFileStats) userId (db w) of
        Inl err \<Rightarrow> (Json_error 500 ''Internal server error'', w)
      | Inr stats \<Rightarrow>
          (case getUserSharedFiles (env_fails e OpGetUserSharedFiles) userId 5 0 (db w) of
             Inl err \<Rightarrow> (Json_error 500 ''Internal server error'', w)
           | Inr recentFiles \<Rightarrow>
               (Json_stats
                  \<lparr>s_totalFiles = or_zero (Some (total_files stats)),
                   s_totalSize = or_zero (total_size stats),
                   s_formattedTotalSize = formatFileSize (or_zero (total_size stats)),
                   s_totalDownloads = or_zero (total_downloads stats),
                   s_recentFiles = map recent_of recentFiles\<rparr>,
                w)))"

text \<open>
  \<open>GET /search/:userId\<close>; \<open>Json_results term results count\<close>. The formatted rows of
  this route have no \<open>lastAccessed\<close> field.
\<close>

definition info_of :: "file_row \<Rightarrow> file_info" where
  "info_of file =
     \<lparr>i_fileId = f_file_id file, i_originalName = f_original_name file,
      i_fileSize = f_file_size file, i_formattedSize = formatFileSize (f_file_size file),
      i_mimeType = f_mime_type file, i_category = f_category file,
      i_description = f_description file, i_downloadCount = f_download_count file,
      i_fileUrl = f_file_url file, i_uploadedAt = f_created_at file\<rparr>"

definition files_search :: "env \<Rightarrow> string \<Rightarrow> string option \<Rightarrow> world \<Rightarrow> response \<times> world" where
  "files_search e userId q w =
     (case q of
        None \<Rightarrow> (Json_error 400 ''Search term is required'', w)
      | Some searchTerm \<Rightarrow>
          if searchTerm = [] then (Json_error 400 ''Search term is required'', w)
          else case searchFiles (env_fails e OpSearchFiles) userId searchTerm (db w) of
            Inl err \<Rightarrow> (Json_error 500 ''Internal server error'', w)
          | Inr rows \<Rightarrow> (Json_results searchTerm (map info_of rows) (length rows), w))"

section \<open>The profile-picture route (routes/profile.js)\<close>

text \<open>
  \<open>POST /upload-picture\<close>: write the new file, \<open>stat\<close> it, remove the old picture from
  disk inside a \<open>try\<close> whose \<open>catch\<close> only warns, then \<open>upsertUser\<close>.

  The outer \<open>catch\<close> block:
  \<^verbatim>\<open>
  if (error.message.includes('Only image files')) {
    return res.status(400).json({ error: error.message });
  }
  res.status(500).json({ error: 'Failed to upload profile picture', message: ... });
  \<close>
  The second field of the 500 answer, \<open>message\<close>, is left out as in \<open>POST /upload\<close>.
  \<open>profile_catch\<close> is this block on the message of a file-system error (\<open>writeFile\<close>,
  \<open>stat\<close>). The message of a rejected \<open>upsertUser\<close> is SQLite's, without text of the
  request, and the handler answers 500.
\<close>

definition profile_catch :: "string \<Rightarrow> response" where
  "profile_catch message =
     (if includesStr message ''Only image files'' then Json_error 400 message
      else Json_error 500 ''Failed to upload profile picture'')"

definition remove_old_picture :: "env \<Rightarrow> string \<Rightarrow> world \<Rightarrow> world" where
  "remove_old_picture e userId w =
     (case getUser (env_fails e OpGetUser) userId (db w) of
        Inl err \<Rightarrow> w
      | Inr None \<Rightarrow> w
      | Inr (Some existingUser) \<Rightarrow>
          if truthy (u_profile_picture_path existingUser)
          then
            let oldPath = or_empty (u_profile_picture_path existingUser)
            in if fs_pathExists oldPath w
               then (case fs_remove e oldPath w of Inl err \<Rightarrow> w | Inr w1 \<Rightarrow> w1)
               else w
          else w)"

definition profile_upload_picture ::
  "env \<Rightarrow> string option \<Rightarrow> string option \<Rightarrow> string option \<Rightarrow> upload option \<Rightarrow> world \<Rightarrow>
   response \<times> world" where
  "profile_upload_picture e userId username email file w =
     (case userId of
        None \<Rightarrow> (Json_error 400 ''User ID is required'', w)
      | Some u \<Rightarrow>
          if u = [] then (Json_error 400 ''User ID is required'', w)
          else case file of
            None \<Rightarrow> (Json_error 400 ''No file uploaded'', w)
          | Some f \<Rightarrow>
              let fileId = env_uuid e;
                  fileExtension =
                    (if extname (up_originalname f) = [] then ''.jpg''
                     else extname (up_originalname f));
                  fileName = ''profile_'' @ u @ ''_'' @ fileId @ fileExtension;
                  filePath = ''uploads/profiles/'' @ fileName
              in case fs_writeFile e filePath (up_buffer f) w of
                   Inl message \<Rightarrow> (profile_catch message, w)
                 | Inr w1 \<Rightarrow>
                     (case fs_stat e filePath w1 of
                        Inl message \<Rightarrow> (profile_catch message, w1)
                      | Inr fileSize \<Rightarrow>
                          let fileUrl = ''/uploads/profiles/'' @ fileName;
                              w2 = remove_old_picture e u w1
                          in case db_run (DbUpsertUser u)
                                    (upsertUser (env_fails e OpUpsertUser) (env_now e) u
                                       (or_null username) (or_null email)
                                       (Some (''uploads/profiles/'' @ fileName)) (Some fileUrl))
                                    w2 of
                               (Inl err, w3) \<Rightarrow>
                                 (Json_error 500 ''Failed to upload profile picture'', w3)
                             | (Inr r, w3) \<Rightarrow> (Json_picture fileUrl fileSize, w3)))"


section \<open>Invariants and observations\<close>

text \<open>
  What the \<open>UNIQUE\<close> constraints and \<open>AUTOINCREMENT\<close> keep true of the tables: no two
  rows share a \<open>file_id\<close> or a \<open>user_id\<close>, and no rowid exceeds its table's sequence.
\<close>

definition db_inv :: "database \<Rightarrow> bool" where
  "db_inv d \<longleftrightarrow>
     distinct (map f_file_id (shared_files d)) \<and>
     distinct (map u_user_id (users d)) \<and>
     list_all (\<lambda>r. f_id r \<le> shared_files_seq d) (shared_files d) \<and>
     list_all (\<lambda>r. u_id r \<le> users_seq d) (users d)"


text \<open>\<open>N\<close> successive calls of \<open>incrementDownloadCount\<close>, at the given clock readings.\<close>

fun increment_calls :: "timestamp list \<Rightarrow> string \<Rightarrow> database \<Rightarrow> database" where
  "increment_calls [] fileId d = d"
| "increment_calls (t # ts) fileId d =
     increment_calls ts fileId (snd (incrementDownloadCount False t fileId d))"

text \<open>A search term without the two pattern characters of \<open>LIKE\<close>.\<close>

definition plain_term :: "string \<Rightarrow> bool" where
  "plain_term t \<longleftrightarrow> CHR ''%'' \<notin> set t \<and> CHR ''_'' \<notin> set t"

section \<open>Example requests and states\<close>

text \<open>
  Concrete inputs for the closed theorems below. \<open>ex_env t u failing\<close> reads the clock
  as \<open>t\<close>, draws the identifier \<open>u\<close>, and lets the listed operations fail, those of the
  file system with a full disk.
  \<open>ex_shared\<close> is the world after user \<open>u1\<close> has uploaded \<open>notes.txt\<close>;
  \<open>ex_profile\<close> the world after user \<open>u1\<close> has uploaded a first profile picture.
\<close>

definition ex_env :: "timestamp \<Rightarrow> string \<Rightarrow> op list \<Rightarrow> env" where
  "ex_env t u failing =
     \<lparr>env_now = t, env_uuid = u, env_fails = (\<lambda>x. x \<in> set failing),
      env_message = (\<lambda>x. ''ENOSPC: no space left on device, write'')\<rparr>"

definition ex_upload :: upload where
  "ex_upload =
     \<lparr>up_originalname = ''notes.txt'', up_mimetype = ''text/plain'', up_buffer = [104, 105]\<rparr>"

definition ex_picture :: upload where
  "ex_picture =
     \<lparr>up_originalname = ''me.png'', up_mimetype = ''image/png'', up_buffer = [1, 2, 3]\<rparr>"

definition ex_shared :: world where
  "ex_shared = snd (files_upload (ex_env 100 ''id1'' []) (Some ''u1'') None (Some ex_upload) empty_world)"

definition ex_profile :: world where
  "ex_profile =
     snd (profile_upload_picture (ex_env 100 ''p1'' []) (Some ''u1'') None None (Some ex_picture)
            empty_world)"

definition ex_failed_upload :: "response \<times> world" where
  "ex_failed_upload =
     files_upload (ex_env 100 ''id1'' [OpCreateSharedFile]) (Some ''u1'') None (Some ex_upload)
       empty_world"






text \<open>
  An environment in which the write fails because the directory is missing; the message
  names the path of the picture of the user who calls himself \<open>Only image files\<close>.
\<close>

definition ex_env_named :: env where
  "ex_env_named =
     \<lparr>env_now = 200, env_uuid = ''p3'', env_fails = (\<lambda>x. x = OpWriteFile),
      env_message = (\<lambda>x. ''ENOENT: no such file or directory, open '' @ [CHR 0x27] @
                        ''/srv/uploads/profiles/profile_Only image files_p3.png'' @ [CHR 0x27])\<rparr>"

text \<open>
  A table with one file of user \<open>u1\<close>, named \<open>a\<close>, with an empty description and the
  category \<open>other\<close>.
\<close>

definition ex_search_db :: database where
  "ex_search_db = snd (createSharedFile False 100
      \<lparr>d_fileId = ''id7'', d_userId = ''u1'', d_originalName = ''a'', d_fileName = ''id7'',
       d_filePath = ''uploads/shared/id7'', d_fileUrl = ''/uploads/shared/id7'',
       d_fileSize = 1, d_mimeType = ''application/x'', d_description = Some [],
       d_category = Some ''other''\<rparr> empty_db)"

section \<open>Properties of the string tests\<close>

lemma startsWith_iff: "startsWith s p \<longleftrightarrow> (\<exists>r. s = p @ r)"
proof
  assume "startsWith s p"
  then have "s = p @ drop (length p) s"
    unfolding startsWith_def by (metis append_take_drop_id)
  then show "\<exists>r. s = p @ r" ..
next
  assume "\<exists>r. s = p @ r"
  then show "startsWith s p"
    by (auto simp: startsWith_def)
qed

lemma includesStr_iff: "includesStr s t \<longleftrightarrow> (\<exists>a b. s = a @ t @ b)"
proof (induction s)
  case Nil
  then show ?case by auto
next
  case (Cons c s)
  show ?case
  proof
    assume "includesStr (c # s) t"
    then consider "startsWith (c # s) t" | "includesStr s t" by auto
    then show "\<exists>a b. c # s = a @ t @ b"
    proof cases
      case 1
      then obtain r where "c # s = t @ r" by (auto simp: startsWith_iff)
      then have "c # s = [] @ t @ r" by simp
      then show ?thesis by blast
    next
      case 2
      then obtain a b where "s = a @ t @ b" using Cons.IH by auto
      then have "c # s = (c # a) @ t @ b" by simp
      then show ?thesis by blast
    qed
  next
    assume "\<exists>a b. c # s = a @ t @ b"
    then obtain a b where ab: "c # s = a @ t @ b" by auto
    show "includesStr (c # s) t"
    proof (cases a)
      case Nil
      with ab have "startsWith (c # s) t" by (auto simp: startsWith_iff)
      then show ?thesis by simp
    next
      case (Cons x a')
      with ab have "s = a' @ t @ b" by simp
      then have "includesStr s t" using Cons.IH by auto
      then show ?thesis by simp
    qed
  qed
qed

section \<open>getFileCategory\<close>

text \<open>
  Claim C6. \<open>getFileCategory\<close> is the fixed decision table, first match wins, compared
  case-sensitively: a MIME type that begins with \<open>image/\<close> gives \<open>image\<close>, else one that
  begins with \<open>video/\<close> gives \<open>video\<close>, else \<open>audio/\<close> gives \<open>audio\<close>, else exactly
  \<open>application/pdf\<close> gives \<open>pdf\<close>, else one that begins with \<open>text/\<close> gives \<open>text\<close>,
  else one that contains \<open>word\<close> or \<open>document\<close> gives \<open>document\<close>, else one that
  contains \<open>zip\<close> gives \<open>archive\<close>, and anything else gives \<open>other\<close>. The four values
  the claim names follow, and so do two that show the order and the case-sensitivity.
\<close>

theorem getFileCategory_decision_table:
  "getFileCategory m =
     (if \<exists>r. m = ''image/'' @ r then ''image''
      else if \<exists>r. m = ''video/'' @ r then ''video''
      else if \<exists>r. m = ''audio/'' @ r then ''audio''
      else if m = ''application/pdf'' then ''pdf''
      else if \<exists>r. m = ''text/'' @ r then ''text''
      else if (\<exists>a b. m = a @ ''word'' @ b) \<or> (\<exists>a b. m = a @ ''document'' @ b)
        then ''document''
      else if \<exists>a b. m = a @ ''zip'' @ b then ''archive''
      else ''other'')
   \<and> getFileCategory ''image/png'' = ''image''
   \<and> getFileCategory ''application/pdf'' = ''pdf''
   \<and> getFileCategory ''application/zip'' = ''archive''
   \<and> getFileCategory ''application/unknown'' = ''other''
   \<and> getFileCategory ''image/zip'' = ''image''
   \<and> getFileCategory ''Image/png'' = ''other''"
proof -
  have table: "getFileCategory m =
     (if \<exists>r. m = ''image/'' @ r then ''image''
      else if \<exists>r. m = ''video/'' @ r then ''video''
      else if \<exists>r. m = ''audio/'' @ r then ''audio''
      else if m = ''application/pdf'' then ''pdf''
      else if \<exists>r. m = ''text/'' @ r then ''text''
      else if (\<exists>a b. m = a @ ''word'' @ b) \<or> (\<exists>a b. m = a @ ''document'' @ b)
        then ''document''
      else if \<exists>a b. m = a @ ''zip'' @ b then ''archive''
      else ''other'')"
    unfolding getFileCategory_def startsWith_iff includesStr_iff ..
  have vals: "getFileCategory ''image/png'' = ''image''"
    "getFileCategory ''application/pdf'' = ''pdf''"
    "getFileCategory ''application/zip'' = ''archive''"
    "getFileCategory ''application/unknown'' = ''other''"
    "getFileCategory ''image/zip'' = ''image''"
    "getFileCategory ''Image/png'' = ''other''"
    by (simp_all add: getFileCategory_def startsWith_def)
  from table vals show ?thesis by blast
qed

theorem getFileCategory_decision_table_witness:
  "getFileCategory ''text/plain'' = ''text''"
proof -
  have "\<not> (\<exists>r. ''text/plain'' = ''image/'' @ r)"
    "\<not> (\<exists>r. ''text/plain'' = ''video/'' @ r)"
    "\<not> (\<exists>r. ''text/plain'' = ''audio/'' @ r)"
    "\<exists>r. ''text/plain'' = ''text/'' @ r"
    by simp_all
  then show ?thesis
    using getFileCategory_decision_table [of "''text/plain''"] by simp
qed

section \<open>formatFileSize\<close>

lemma digit_vals:
  "digit 0 = CHR ''0''" "digit 1 = CHR ''1''" "digit 2 = CHR ''2''" "digit 3 = CHR ''3''"
  "digit 4 = CHR ''4''" "digit 5 = CHR ''5''" "digit 6 = CHR ''6''" "digit 7 = CHR ''7''"
  "digit 8 = CHR ''8''" "digit 9 = CHR ''9''" "digit (Suc 0) = CHR ''1''"
  by code_simp+
lemma showNat_small: "n < 10 \<Longrightarrow> showNat n = [digit n]"
  by (simp add: showNat.simps)
lemma showNat_big: "10 \<le> n \<Longrightarrow> showNat n = showNat (n div 10) @ [digit (n mod 10)]"
  by (subst showNat.simps) simp
lemma unitIndex_small: "n < 1024 \<Longrightarrow> unitIndex n = 0"
  by (simp add: unitIndex.simps)
lemma unitIndex_big: "1024 \<le> n \<Longrightarrow> unitIndex n = Suc (unitIndex (n div 1024))"
  by (subst unitIndex.simps) simp
lemmas fmt_eval = formatFileSize_def unitIndex_small unitIndex_big toFixed2_def roundHundredths_def
      showNat_small showNat_big digit_vals numberToString_def sizesAt_def sizes_def

lemma digit_cases:
  assumes "(d::nat) < 10"
  shows "d = 0 \<or> d = 1 \<or> d = 2 \<or> d = 3 \<or> d = 4 \<or> d = 5 \<or> d = 6 \<or> d = 7 \<or> d = 8 \<or> d = 9"
  using assms by arith

lemma digit_not_point: "d < 10 \<Longrightarrow> digit d \<noteq> CHR ''.''"
  using digit_cases [of d] by (auto simp: digit_vals)

lemma digit_zero_iff: "d < 10 \<Longrightarrow> digit d = CHR ''0'' \<longleftrightarrow> d = 0"
  using digit_cases [of d] by (auto simp: digit_vals)

lemma numberToString_fixed2:
  assumes "a < 10" "b < 10"
  shows "numberToString (s @ ''.'' @ [digit a, digit b]) =
           s @ (if a = 0 \<and> b = 0 then [] else if b = 0 then ''.'' @ [digit a]
                else ''.'' @ [digit a, digit b])"
  using assms
  by (simp add: numberToString_def digit_zero_iff digit_not_point butlast_append)

lemma numberToString_toFixed2:
  "numberToString (toFixed2 num den) = showHundredths (roundHundredths num den)"
proof -
  define h where "h = roundHundredths num den"
  define a where "a = h mod 100 div 10"
  define b where "b = h mod 10"
  have ab: "a < 10" "b < 10" by (simp_all add: a_def b_def)
  have "h mod 100 mod 10 = h mod 10"
    by (simp add: mod_mod_cancel)
  moreover have "h mod 100 = 10 * (h mod 100 div 10) + h mod 100 mod 10"
    by simp
  ultimately have "h mod 100 = 10 * a + b"
    by (simp add: a_def b_def)
  then have z: "h mod 100 = 0 \<longleftrightarrow> a = 0 \<and> b = 0"
    by simp
  have "numberToString (toFixed2 num den) = numberToString (showNat (h div 100) @ ''.'' @ [digit a, digit b])"
    by (simp add: toFixed2_def Let_def h_def a_def b_def)
  also have "\<dots> = showNat (h div 100) @ (if a = 0 \<and> b = 0 then [] else if b = 0 then ''.'' @ [digit a]
                else ''.'' @ [digit a, digit b])"
    using ab by (rule numberToString_fixed2)
  also have "\<dots> = showHundredths h"
    unfolding showHundredths_def z a_def [symmetric] b_def [symmetric] by simp
  finally show ?thesis by (simp add: h_def)
qed

lemma unitIndex_bounds: "0 < n \<Longrightarrow> 1024 ^ unitIndex n \<le> n \<and> n < 1024 ^ Suc (unitIndex n)"
proof (induction n rule: unitIndex.induct)
  case (1 n)
  show ?case
  proof (cases "n < 1024")
    case True
    with 1 show ?thesis by (simp add: unitIndex_small)
  next
    case False
    then have pos: "0 < n div 1024" by simp
    from 1 False pos
    have ih: "1024 ^ unitIndex (n div 1024) \<le> n div 1024"
        "n div 1024 < 1024 ^ Suc (unitIndex (n div 1024))"
      by simp_all
    have u: "unitIndex n = Suc (unitIndex (n div 1024))"
      using False by (simp add: unitIndex_big)
    from ih(1) have "1024 * 1024 ^ unitIndex (n div 1024) \<le> 1024 * (n div 1024)" by simp
    also have "\<dots> \<le> n" by simp
    finally have lo: "1024 ^ unitIndex n \<le> n" by (simp add: u)
    from ih(2) have "Suc (n div 1024) \<le> 1024 ^ Suc (unitIndex (n div 1024))" by simp
    then have "1024 * Suc (n div 1024) \<le> 1024 * 1024 ^ Suc (unitIndex (n div 1024))"
      by (rule mult_le_mono2)
    moreover have "n < 1024 * Suc (n div 1024)"
      using dividend_less_times_div [of 1024 n] by simp
    ultimately have hi: "n < 1024 ^ Suc (unitIndex n)" by (simp add: u)
    from lo hi show ?thesis by simp
  qed
qed

lemma unitIndex_less:
  assumes "0 < n" "n < 1024 ^ m"
  shows "unitIndex n < m"
proof (rule ccontr)
  assume "\<not> unitIndex n < m"
  then have "m \<le> unitIndex n" by simp
  then have "(1024::nat) ^ m \<le> 1024 ^ unitIndex n"
    by (simp add: power_increasing)
  with unitIndex_bounds [OF assms(1)] assms(2) show False by simp
qed

lemma roundHundredths_nearest:
  assumes "0 < den"
  shows "2 * den * roundHundredths num den \<le> 200 * num + den"
    and "200 * num + den < 2 * den * Suc (roundHundredths num den)"
proof -
  have "0 < 2 * den" using assms by simp
  show "2 * den * roundHundredths num den \<le> 200 * num + den"
    unfolding roundHundredths_def by simp
  show "200 * num + den < 2 * den * Suc (roundHundredths num den)"
    unfolding roundHundredths_def
    using dividend_less_times_div [of "2 * den" "200 * num + den"] \<open>0 < 2 * den\<close>
    by simp
qed

lemma formatFileSize_general:
  assumes "0 < n" "n < 1024 ^ 4"
  shows "\<exists>i h. i < 4 \<and> 1024 ^ i \<le> n \<and> n < 1024 ^ Suc i \<and>
           2 * 1024 ^ i * h \<le> 200 * n + 1024 ^ i \<and>
           200 * n + 1024 ^ i < 2 * 1024 ^ i * Suc h \<and>
           formatFileSize n = showHundredths h @ '' '' @ sizes ! i"
proof -
  define i where "i = unitIndex n"
  define h where "h = roundHundredths n (1024 ^ i)"
  have i4: "i < 4" unfolding i_def using assms by (rule unitIndex_less)
  have b: "1024 ^ i \<le> n" "n < 1024 ^ Suc i"
    unfolding i_def using unitIndex_bounds [OF assms(1)] by simp_all
  have r: "2 * 1024 ^ i * h \<le> 200 * n + 1024 ^ i"
      "200 * n + 1024 ^ i < 2 * 1024 ^ i * Suc h"
    unfolding h_def using roundHundredths_nearest [of "1024 ^ i" n] by simp_all
  have f: "formatFileSize n = showHundredths h @ '' '' @ sizes ! i"
    using assms(1) i4
    by (simp add: formatFileSize_def Let_def numberToString_toFixed2 sizesAt_def sizes_def
        i_def [symmetric] h_def [symmetric])
  from i4 b r f show ?thesis by blast
qed

text \<open>
  Claim C5 as stated fails: the size is not printed with exactly two decimals.
  \<open>parseFloat\<close> around \<open>toFixed(2)\<close> drops the trailing zeros, so 1536 bytes print as
  \<open>1.5 KB\<close>, not as \<open>1.50 KB\<close>.
\<close>

theorem formatFileSize_two_decimals_counterexample:
  "formatFileSize 1536 = ''1.5 KB'' \<and> formatFileSize 1536 \<noteq> ''1.50 KB''"
  by (simp add: fmt_eval)

text \<open>
  Claim C5, amended. For every byte count \<open>n\<close> with \<open>0 < n < 1024\<^sup>4\<close>, \<open>formatFileSize\<close>
  picks the largest unit \<open>i\<close> of Bytes/KB/MB/GB with \<open>1024\<^sup>i \<le> n\<close>, rounds
  \<open>n / 1024\<^sup>i\<close> to the nearest hundredth \<open>h / 100\<close> (a tie goes up), and prints that
  number with at most two decimals, trailing zeros of the fraction dropped, followed by a
  space and the unit. 0 is printed as \<open>0 Bytes\<close>, 1536 as \<open>1.5 KB\<close> and 1073741824 as
  \<open>1 GB\<close>.
\<close>

theorem formatFileSize_amended:
  "(0 < n \<and> n < 1024 ^ 4 \<longrightarrow>
      (\<exists>i h. i < 4 \<and> 1024 ^ i \<le> n \<and> n < 1024 ^ Suc i \<and>
             2 * 1024 ^ i * h \<le> 200 * n + 1024 ^ i \<and>
             200 * n + 1024 ^ i < 2 * 1024 ^ i * Suc h \<and>
             formatFileSize n = showHundredths h @ '' '' @ sizes ! i))
   \<and> formatFileSize 0 = ''0 Bytes''
   \<and> formatFileSize 1536 = ''1.5 KB''
   \<and> formatFileSize 1073741824 = ''1 GB''"
proof -
  have "formatFileSize 0 = ''0 Bytes''"
    by (simp add: formatFileSize_def)
  moreover have "formatFileSize 1536 = ''1.5 KB''"
    by (simp add: fmt_eval)
  moreover have "formatFileSize 1073741824 = ''1 GB''"
    by (simp add: fmt_eval)
  ultimately show ?thesis
    using formatFileSize_general [of n] by blast
qed

theorem formatFileSize_amended_witness:
  "(0::nat) < 1234567 \<and> (1234567::nat) < 1024 ^ 4 \<and>
   (\<exists>i h. i < 4 \<and> 1024 ^ i \<le> (1234567::nat) \<and> (1234567::nat) < 1024 ^ Suc i \<and>
          2 * 1024 ^ i * h \<le> 200 * 1234567 + 1024 ^ i \<and>
          200 * 1234567 + 1024 ^ i < 2 * 1024 ^ i * Suc h \<and>
          formatFileSize 1234567 = showHundredths h @ '' '' @ sizes ! i)"
  using formatFileSize_amended [of 1234567] by simp

section \<open>Evaluating the routes on concrete requests\<close>

lemmas handler_defs = files_upload_def files_delete_def files_download_def files_stats_def
  files_search_def profile_upload_picture_def remove_old_picture_def
  fs_writeFile_def fs_stat_def fs_pathExists_def fs_remove_def db_run_def
  getUser_def upsertUser_def createSharedFile_def getSharedFile_def deleteSharedFile_def
  incrementDownloadCount_def getUserFileStats_def getUserSharedFiles_def
  truthy_def or_null_def or_empty_def or_zero_def up_size_def next_rowid_def
  extname_def basename_def empty_world_def empty_db_def ex_env_def ex_upload_def ex_picture_def
  getFileCategory_def startsWith_def Let_def

lemma ex_shared_eq:
  "ex_shared =
     \<lparr>db = \<lparr>users = [], users_seq = 0,
        shared_files = [\<lparr>f_id = 1, f_file_id = ''id1'', f_user_id = ''u1'',
           f_original_name = ''notes.txt'', f_file_name = ''id1.txt'',
           f_file_path = ''uploads/shared/id1.txt'', f_file_url = ''/uploads/shared/id1.txt'',
           f_file_size = 2, f_mime_type = ''text/plain'', f_description = Some [],
           f_category = Some ''text'', f_download_count = 0, f_is_public = False,
           f_created_at = 100, f_last_accessed = 100\<rparr>], shared_files_seq = 1\<rparr>,
      files = (\<lambda>p. None)(''uploads/shared/id1.txt'' := Some [104, 105]),
      trace = [FsWrite ''uploads/shared/id1.txt'', DbCreateSharedFile ''id1'']\<rparr>"
  by (simp add: ex_shared_def handler_defs)

lemma ex_profile_eq:
  "ex_profile =
     \<lparr>db = \<lparr>users = [\<lparr>u_id = 1, u_user_id = ''u1'', u_username = None, u_email = None,
           u_profile_picture_path = Some ''uploads/profiles/profile_u1_p1.png'',
           u_profile_picture_url = Some ''/uploads/profiles/profile_u1_p1.png'',
           u_created_at = 100, u_updated_at = 100\<rparr>],
        users_seq = 1, shared_files = [], shared_files_seq = 0\<rparr>,
      files = (\<lambda>p. None)(''uploads/profiles/profile_u1_p1.png'' := Some [1, 2, 3]),
      trace = [FsWrite ''uploads/profiles/profile_u1_p1.png'', DbUpsertUser ''u1'']\<rparr>"
  by (simp add: ex_profile_def handler_defs)

lemma ex_shared_inv: "db_inv (db ex_shared)"
  by (simp add: ex_shared_eq db_inv_def)

lemma ex_profile_inv: "db_inv (db ex_profile)"
  by (simp add: ex_profile_eq db_inv_def)

section \<open>Row identifiers and lookups\<close>

lemma fold_max_ge: "seq \<le> fold max ids (seq::nat)"
  by (induction ids arbitrary: seq) (auto intro: order_trans [OF max.cobounded2])

lemma fold_max_mem: "i \<in> set ids \<Longrightarrow> i \<le> fold max ids (seq::nat)"
proof (induction ids arbitrary: seq)
  case Nil
  then show ?case by simp
next
  case (Cons x xs)
  show ?case
  proof (cases "i = x")
    case True
    have "x \<le> max x seq" by simp
    also have "\<dots> \<le> fold max xs (max x seq)" by (rule fold_max_ge)
    finally show ?thesis using True by simp
  next
    case False
    with Cons.prems have "i \<in> set xs" by simp
    then show ?thesis using Cons.IH by simp
  qed
qed

lemma fold_max_bounded: "list_all (\<lambda>i. i \<le> seq) ids \<Longrightarrow> fold max ids (seq::nat) = seq"
  by (induction ids) (auto simp: max_def)

lemma next_rowid_gt_seq: "seq < next_rowid seq ids"
  unfolding next_rowid_def using fold_max_ge [of seq ids] by simp

lemma next_rowid_gt_mem: "i \<in> set ids \<Longrightarrow> i < next_rowid seq ids"
  unfolding next_rowid_def using fold_max_mem [of i ids seq] by simp

lemma find_filter_append_new:
  assumes "P x"
  shows "find P (filter (\<lambda>r. \<not> P r) xs @ [x]) = Some x"
  using assms by (induction xs) auto

lemma find_Some_mem: "find P xs = Some x \<Longrightarrow> x \<in> set xs \<and> P x"
  by (induction xs) (auto split: if_splits)

section \<open>The table invariant\<close>

text \<open>
  The invariant holds of the empty database and every statement of the store keeps it, so
  it holds of every database the routes can reach.
\<close>

lemma db_inv_empty: "db_inv empty_db"
  by (simp add: db_inv_def empty_db_def)

lemma list_all_le_mono:
  "list_all (\<lambda>r. f r \<le> (m::nat)) xs \<Longrightarrow> m \<le> n \<Longrightarrow> list_all (\<lambda>r. f r \<le> n) xs"
  by (induction xs) auto

lemma createSharedFile_inv:
  assumes "db_inv d"
  shows "db_inv (snd (createSharedFile flt t fd d))"
proof (cases "flt \<or> d_fileId fd \<in> f_file_id ` set (shared_files d)")
  case True
  then have "snd (createSharedFile flt t fd d) = d"
    by (auto simp: createSharedFile_def)
  with assms show ?thesis by simp
next
  case False
  define n where "n = next_rowid (shared_files_seq d) (map f_id (shared_files d))"
  have le: "shared_files_seq d \<le> n"
    unfolding n_def using next_rowid_gt_seq [of "shared_files_seq d" "map f_id (shared_files d)"]
    by simp
  from assms have "list_all (\<lambda>r. f_id r \<le> shared_files_seq d) (shared_files d)"
    by (simp add: db_inv_def)
  then have ids: "list_all (\<lambda>r. f_id r \<le> n) (shared_files d)"
    using le by (rule list_all_le_mono)
  from False assms ids show ?thesis
    by (simp add: createSharedFile_def Let_def db_inv_def n_def [symmetric])
qed

lemma upsertUser_inv:
  assumes "db_inv d"
  shows "db_inv (snd (upsertUser flt t uid un em pp pu d))"
proof (cases flt)
  case True
  with assms show ?thesis by (simp add: upsertUser_def)
next
  case False
  define n where "n = next_rowid (users_seq d) (map u_id (users d))"
  have le: "users_seq d \<le> n"
    unfolding n_def using next_rowid_gt_seq [of "users_seq d" "map u_id (users d)"] by simp
  from assms have "list_all (\<lambda>r. u_id r \<le> users_seq d) (users d)"
    by (simp add: db_inv_def)
  then have "list_all (\<lambda>r. u_id r \<le> n) (users d)"
    using le by (rule list_all_le_mono)
  then have ids: "list_all (\<lambda>r. u_id r \<le> n) (filter (\<lambda>r. u_user_id r \<noteq> uid) (users d))"
    by (simp add: list_all_iff)
  from assms have "distinct (map u_user_id (filter (\<lambda>r. u_user_id r \<noteq> uid) (users d)))"
    by (simp add: db_inv_def distinct_map_filter)
  moreover have "uid \<notin> u_user_id ` set (filter (\<lambda>r. u_user_id r \<noteq> uid) (users d))"
    by auto
  ultimately show ?thesis
    using False assms ids
    by (simp add: upsertUser_def Let_def db_inv_def n_def [symmetric])
qed

lemma deleteSharedFile_inv:
  assumes "db_inv d"
  shows "db_inv (snd (deleteSharedFile flt fid u d))"
  using assms
  by (simp add: deleteSharedFile_def Let_def db_inv_def distinct_map_filter list_all_iff)

section \<open>upsertUser\<close>

lemma upsertUser_replaces:
  assumes old: "getUser False uid d = Inr (Some old)"
  shows "\<exists>new d'. upsertUser False t uid un em pp pu d = (Inr (u_id new, uid), d') \<and>
           getUser False uid d' = Inr (Some new) \<and>
           u_created_at new = t \<and> u_updated_at new = t \<and>
           u_id old < u_id new \<and> old \<notin> set (users d') \<and>
           filter (\<lambda>r. u_user_id r = uid) (users d') = [new]"
proof -
  define new where "new = \<lparr>u_id = next_rowid (users_seq d) (map u_id (users d)), u_user_id = uid,
                u_username = un, u_email = em, u_profile_picture_path = pp,
                u_profile_picture_url = pu, u_created_at = t, u_updated_at = t\<rparr>"
  define d' where "d' = d\<lparr>users := filter (\<lambda>r. u_user_id r \<noteq> uid) (users d) @ [new], users_seq := u_id new\<rparr>"
  have run: "upsertUser False t uid un em pp pu d = (Inr (u_id new, uid), d')"
    by (simp add: upsertUser_def Let_def new_def d'_def)
  from old have mem: "old \<in> set (users d)" and ouid: "u_user_id old = uid"
    using find_Some_mem [of "\<lambda>r. u_user_id r = uid" "users d" old]
    by (simp_all add: getUser_def)
  have nuid: "u_user_id new = uid" by (simp add: new_def)
  have get: "getUser False uid d' = Inr (Some new)"
    using find_filter_append_new [of "\<lambda>r. u_user_id r = uid" new "users d"] nuid
    by (simp add: getUser_def d'_def)
  have lt: "u_id old < u_id new"
    using next_rowid_gt_mem [of "u_id old" "map u_id (users d)" "users_seq d"] mem
    by (simp add: new_def)
  then have "old \<noteq> new" by auto
  with ouid have gone: "old \<notin> set (users d')" by (simp add: d'_def)
  have one: "filter (\<lambda>r. u_user_id r = uid) (users d') = [new]"
    using nuid by (simp add: d'_def)
  have "u_created_at new = t" "u_updated_at new = t" by (simp_all add: new_def)
  with run get lt gone one show ?thesis by blast
qed

text \<open>
  Claim C10. When \<open>upsertUser\<close> runs for a \<open>userId\<close> that already has a row, the row
  is replaced, not updated in place: afterwards the one row of that \<open>userId\<close> has
  \<open>created_at\<close> equal to the time of the call (as \<open>updated_at\<close>), and a rowid larger
  than the old one; the old row, with its creation timestamp, is gone.
\<close>

theorem upsertUser_replaces_row:
  assumes "getUser False uid d = Inr (Some old)"
  shows "\<exists>new d'. upsertUser False t uid un em pp pu d = (Inr (u_id new, uid), d') \<and>
           getUser False uid d' = Inr (Some new) \<and>
           u_created_at new = t \<and> u_updated_at new = t \<and>
           u_id old < u_id new \<and> old \<notin> set (users d') \<and>
           filter (\<lambda>r. u_user_id r = uid) (users d') = [new]"
  using assms by (rule upsertUser_replaces)

theorem upsertUser_replaces_row_witness:
  "(\<exists>old. getUser False ''u1'' (db ex_profile) = Inr (Some old) \<and>
          u_id old = 1 \<and> u_created_at old = 100) \<and>
   (\<exists>new d'. upsertUser False 200 ''u1'' (Some ''ann'') None
                (Some ''uploads/profiles/profile_u1_p1.png'')
                (Some ''/uploads/profiles/profile_u1_p1.png'') (db ex_profile) =
                (Inr (u_id new, ''u1''), d') \<and>
             getUser False ''u1'' d' = Inr (Some new) \<and>
             u_created_at new = 200 \<and> 1 < u_id new)"
proof -
  define old where "old = \<lparr>u_id = 1, u_user_id = ''u1'', u_username = None, u_email = None,
           u_profile_picture_path = Some ''uploads/profiles/profile_u1_p1.png'',
           u_profile_picture_url = Some ''/uploads/profiles/profile_u1_p1.png'',
           u_created_at = 100, u_updated_at = 100\<rparr>"
  have h: "getUser False ''u1'' (db ex_profile) = Inr (Some old)"
    by (simp add: ex_profile_eq getUser_def old_def)
  have o: "u_id old = 1" "u_created_at old = 100" by (simp_all add: old_def)
  from upsertUser_replaces_row [OF h, of 200 "Some ''ann''" None
      "Some ''uploads/profiles/profile_u1_p1.png''" "Some ''/uploads/profiles/profile_u1_p1.png''"]
  have "\<exists>new d'. upsertUser False 200 ''u1'' (Some ''ann'') None
                (Some ''uploads/profiles/profile_u1_p1.png'')
                (Some ''/uploads/profiles/profile_u1_p1.png'') (db ex_profile) =
                (Inr (u_id new, ''u1''), d') \<and>
             getUser False ''u1'' d' = Inr (Some new) \<and>
             u_created_at new = 200 \<and> 1 < u_id new"
    using o by auto
  with h o show ?thesis by blast
qed

section \<open>incrementDownloadCount\<close>

lemma bump_fields [simp]:
  "f_file_id (bump t r) = f_file_id r" "f_id (bump t r) = f_id r"
  "f_download_count (bump t r) = Suc (f_download_count r)" "f_last_accessed (bump t r) = t"
  by (simp_all add: bump_def)

lemma incrementDownloadCount_eq:
  "incrementDownloadCount False t fid d =
     (Inr (length (filter (\<lambda>r. f_file_id r = fid) (shared_files d))),
      d\<lparr>shared_files := map (\<lambda>r. if f_file_id r = fid then bump t r else r) (shared_files d)\<rparr>)"
  by (simp add: incrementDownloadCount_def bump_def)

lemma map_bump_file_ids:
  "map (f_file_id \<circ> (\<lambda>r. if f_file_id r = fid then bump t r else r)) xs = map f_file_id xs"
  by (induction xs) auto

lemma map_bump_ids:
  "list_all (\<lambda>r. f_id r \<le> n) (map (\<lambda>r. if f_file_id r = fid then bump t r else r) xs) =
   list_all (\<lambda>r. f_id r \<le> n) xs"
  by (induction xs) auto

lemma find_map_bump:
  "find (\<lambda>r. f_file_id r = fid) (map (\<lambda>r. if f_file_id r = fid then bump t r else r) xs) =
   map_option (bump t) (find (\<lambda>r. f_file_id r = fid) xs)"
  by (induction xs) auto

lemma map_bump_absent:
  "find (\<lambda>r. f_file_id r = fid) xs = None \<Longrightarrow>
   map (\<lambda>r. if f_file_id r = fid then bump t r else r) xs = xs"
  by (induction xs) (auto split: if_splits)

lemma count_distinct_present:
  "distinct (map f_file_id xs) \<Longrightarrow> find (\<lambda>r. f_file_id r = fid) xs = Some r \<Longrightarrow>
   length (filter (\<lambda>r. f_file_id r = fid) xs) = 1"
proof (induction xs)
  case Nil
  then show ?case by simp
next
  case (Cons x xs)
  show ?case
  proof (cases "f_file_id x = fid")
    case True
    with Cons.prems(1) have "fid \<notin> f_file_id ` set xs" by simp
    then have "\<forall>y\<in>set xs. f_file_id y \<noteq> fid" by blast
    then have "filter (\<lambda>r. f_file_id r = fid) xs = []" by (simp add: filter_empty_conv)
    with True show ?thesis by simp
  next
    case False
    with Cons show ?thesis by simp
  qed
qed

lemma count_absent:
  "find (\<lambda>r. f_file_id r = fid) xs = None \<Longrightarrow> length (filter (\<lambda>r. f_file_id r = fid) xs) = 0"
  by (induction xs) (auto split: if_splits)

lemma incrementDownloadCount_inv:
  "db_inv d \<Longrightarrow> db_inv (snd (incrementDownloadCount False t fid d))"
  by (simp add: incrementDownloadCount_eq db_inv_def map_bump_file_ids map_bump_ids)

lemma increment_once:
  assumes "db_inv d"
  shows "\<exists>c d'. incrementDownloadCount False t fid d = (Inr c, d') \<and> db_inv d' \<and>
           (case getSharedFile False fid d of
              Inr (Some r) \<Rightarrow> c = 1 \<and>
                getSharedFile False fid d' =
                  Inr (Some (r\<lparr>f_download_count := f_download_count r + 1, f_last_accessed := t\<rparr>))
            | _ \<Rightarrow> c = 0 \<and> d' = d)"
proof -
  define c where "c = length (filter (\<lambda>r. f_file_id r = fid) (shared_files d))"
  define d' where "d' = d\<lparr>shared_files := map (\<lambda>r. if f_file_id r = fid then bump t r else r) (shared_files d)\<rparr>"
  have run: "incrementDownloadCount False t fid d = (Inr c, d')"
    by (simp add: incrementDownloadCount_eq c_def d'_def)
  have inv: "db_inv d'"
    using incrementDownloadCount_inv [OF assms, of t fid] run by simp
  have eff: "case getSharedFile False fid d of
              Inr (Some r) \<Rightarrow> c = 1 \<and>
                getSharedFile False fid d' =
                  Inr (Some (r\<lparr>f_download_count := f_download_count r + 1, f_last_accessed := t\<rparr>))
            | _ \<Rightarrow> c = 0 \<and> d' = d"
  proof (cases "find (\<lambda>r. f_file_id r = fid) (shared_files d)")
    case None
    then show ?thesis
      by (simp add: getSharedFile_def c_def d'_def count_absent map_bump_absent)
  next
    case (Some r)
    moreover from assms have "distinct (map f_file_id (shared_files d))"
      by (simp add: db_inv_def)
    ultimately have "c = 1" unfolding c_def by (simp add: count_distinct_present)
    with Some show ?thesis
      by (simp add: getSharedFile_def d'_def find_map_bump bump_def)
  qed
  from run inv eff show ?thesis by blast
qed

lemma increment_calls_row:
  "getSharedFile False fid d = Inr (Some r) \<Longrightarrow>
   getSharedFile False fid (increment_calls ts fid d) =
     Inr (Some (r\<lparr>f_download_count := f_download_count r + length ts,
                  f_last_accessed := last (f_last_accessed r # ts)\<rparr>))"
proof (induction ts arbitrary: d r)
  case Nil
  then show ?case by simp
next
  case (Cons t ts)
  have "getSharedFile False fid (snd (incrementDownloadCount False t fid d)) = Inr (Some (bump t r))"
    using Cons.prems by (simp add: incrementDownloadCount_eq getSharedFile_def find_map_bump)
  from Cons.IH [OF this] show ?case
    by (simp add: bump_def)
qed

lemma increment_calls_inv: "db_inv d \<Longrightarrow> db_inv (increment_calls ts fid d)"
  by (induction ts arbitrary: d) (simp_all add: incrementDownloadCount_inv)

lemma last_take_mono:
  assumes "sorted (x # ts)" "j \<le> k" "k \<le> length ts"
  shows "last (x # take j ts) \<le> last ((x::int) # take k ts)"
proof -
  have nth: "\<And>i. i \<le> length ts \<Longrightarrow> last (x # take i ts) = (x # ts) ! i"
  proof -
    fix i assume "i \<le> length ts"
    then have "x # take i ts = take (Suc i) (x # ts)" "Suc i \<le> length (x # ts)" by simp_all
    then show "last (x # take i ts) = (x # ts) ! i"
      by (metis diff_Suc_1 last_conv_nth length_take lessI min.absorb2 nth_take take_eq_Nil zero_less_Suc list.distinct(1) less_not_refl)
  qed
  from assms have "(x # ts) ! j \<le> (x # ts) ! k"
    by (intro sorted_nth_mono) simp_all
  with nth [of j] nth [of k] assms show ?thesis by simp
qed

lemma find_append_new:
  assumes "\<forall>y\<in>set xs. \<not> P y" "P x"
  shows "find P (xs @ [x]) = Some x"
  using assms by (induction xs) auto

lemma createSharedFile_fresh_row:
  assumes "createSharedFile False t0 fd d = (Inr x, d1)"
  shows "\<exists>r0. getSharedFile False (d_fileId fd) d1 = Inr (Some r0) \<and>
           f_download_count r0 = 0 \<and> f_last_accessed r0 = t0 \<and> f_created_at r0 = t0"
proof -
  from assms have fresh: "d_fileId fd \<notin> f_file_id ` set (shared_files d)"
    by (auto simp: createSharedFile_def split: if_splits)
  then have no: "\<forall>y\<in>set (shared_files d). \<not> f_file_id y = d_fileId fd"
    by (metis imageI)
  define row where "row = \<lparr>f_id = next_rowid (shared_files_seq d) (map f_id (shared_files d)),
      f_file_id = d_fileId fd, f_user_id = d_userId fd,
      f_original_name = d_originalName fd, f_file_name = d_fileName fd,
      f_file_path = d_filePath fd, f_file_url = d_fileUrl fd,
      f_file_size = d_fileSize fd, f_mime_type = d_mimeType fd,
      f_description = d_description fd, f_category = d_category fd,
      f_download_count = 0, f_is_public = False,
      f_created_at = t0, f_last_accessed = t0\<rparr>"
  from assms fresh have d1: "shared_files d1 = shared_files d @ [row]"
    by (auto simp: createSharedFile_def Let_def row_def split: if_splits)
  have "find (\<lambda>r. f_file_id r = d_fileId fd) (shared_files d @ [row]) = Some row"
    using no by (intro find_append_new) (simp_all add: row_def)
  then have "getSharedFile False (d_fileId fd) d1 = Inr (Some row)"
    by (simp add: getSharedFile_def d1)
  moreover have "f_download_count row = 0" "f_last_accessed row = t0" "f_created_at row = t0"
    by (simp_all add: row_def)
  ultimately show ?thesis by blast
qed

text \<open>
  Claim C9. Under the table invariant, one call of \<open>incrementDownloadCount\<close> resolves
  with \<open>changes\<close> 1 when a row has the \<open>file_id\<close> and 0 when none has, never more; the
  row's \<open>download_count\<close> grows by exactly one and its \<open>last_accessed\<close> becomes the clock
  reading of the call, both in the one \<open>UPDATE\<close>. Consequently \<open>N\<close> calls at the clock
  readings \<open>ts\<close> add \<open>N\<close> to the count; after the first \<open>k\<close> of them the count has
  grown by \<open>k\<close>, and when the clock readings do not decrease, neither does
  \<open>last_accessed\<close>. A row that \<open>createSharedFile\<close> has just inserted starts at 0, so
  its count after \<open>N\<close> calls is \<open>N\<close>.
\<close>

theorem incrementDownloadCount_counts:
  assumes "db_inv d"
  shows
    "(\<exists>c d'. incrementDownloadCount False t fid d = (Inr c, d') \<and> db_inv d' \<and>
        (case getSharedFile False fid d of
           Inr (Some r) \<Rightarrow>
             c = 1 \<and>
             getSharedFile False fid d' =
               Inr (Some (r\<lparr>f_download_count := f_download_count r + 1, f_last_accessed := t\<rparr>))
         | _ \<Rightarrow> c = 0 \<and> d' = d))
   \<and> (\<forall>r. getSharedFile False fid d = Inr (Some r) \<longrightarrow>
        getSharedFile False fid (increment_calls ts fid d) =
          Inr (Some (r\<lparr>f_download_count := f_download_count r + length ts,
                       f_last_accessed := last (f_last_accessed r # ts)\<rparr>)))
   \<and> (\<forall>r j k. getSharedFile False fid d = Inr (Some r) \<and> sorted (f_last_accessed r # ts) \<and>
          j \<le> k \<and> k \<le> length ts \<longrightarrow>
        (\<exists>rj rk. getSharedFile False fid (increment_calls (take j ts) fid d) = Inr (Some rj) \<and>
                 getSharedFile False fid (increment_calls (take k ts) fid d) = Inr (Some rk) \<and>
                 f_download_count rk = f_download_count r + k \<and>
                 f_last_accessed rj \<le> f_last_accessed rk))
   \<and> (\<forall>fd t0 x d1. createSharedFile False t0 fd d = (Inr x, d1) \<longrightarrow>
        (\<exists>r1. getSharedFile False (d_fileId fd) (increment_calls ts (d_fileId fd) d1) =
                 Inr (Some r1) \<and>
              f_download_count r1 = length ts))"
proof -
  have one: "\<exists>c d'. incrementDownloadCount False t fid d = (Inr c, d') \<and> db_inv d' \<and>
        (case getSharedFile False fid d of
           Inr (Some r) \<Rightarrow>
             c = 1 \<and>
             getSharedFile False fid d' =
               Inr (Some (r\<lparr>f_download_count := f_download_count r + 1, f_last_accessed := t\<rparr>))
         | _ \<Rightarrow> c = 0 \<and> d' = d)"
    using assms by (rule increment_once)
  have many: "\<forall>r. getSharedFile False fid d = Inr (Some r) \<longrightarrow>
        getSharedFile False fid (increment_calls ts fid d) =
          Inr (Some (r\<lparr>f_download_count := f_download_count r + length ts,
                       f_last_accessed := last (f_last_accessed r # ts)\<rparr>))"
    by (simp add: increment_calls_row)
  have mono: "\<forall>r j k. getSharedFile False fid d = Inr (Some r) \<and> sorted (f_last_accessed r # ts) \<and>
          j \<le> k \<and> k \<le> length ts \<longrightarrow>
        (\<exists>rj rk. getSharedFile False fid (increment_calls (take j ts) fid d) = Inr (Some rj) \<and>
                 getSharedFile False fid (increment_calls (take k ts) fid d) = Inr (Some rk) \<and>
                 f_download_count rk = f_download_count r + k \<and>
                 f_last_accessed rj \<le> f_last_accessed rk)"
  proof (intro allI impI)
    fix r j k
    assume a: "getSharedFile False fid d = Inr (Some r) \<and> sorted (f_last_accessed r # ts) \<and>
          j \<le> k \<and> k \<le> length ts"
    then have r: "getSharedFile False fid d = Inr (Some r)"
      and s: "sorted (f_last_accessed r # ts)" and jk: "j \<le> k" "k \<le> length ts"
      by simp_all
    define rj where "rj = r\<lparr>f_download_count := f_download_count r + length (take j ts),
                       f_last_accessed := last (f_last_accessed r # take j ts)\<rparr>"
    define rk where "rk = r\<lparr>f_download_count := f_download_count r + length (take k ts),
                       f_last_accessed := last (f_last_accessed r # take k ts)\<rparr>"
    have "getSharedFile False fid (increment_calls (take j ts) fid d) = Inr (Some rj)"
      unfolding rj_def using r by (rule increment_calls_row)
    moreover have "getSharedFile False fid (increment_calls (take k ts) fid d) = Inr (Some rk)"
      unfolding rk_def using r by (rule increment_calls_row)
    moreover have "f_download_count rk = f_download_count r + k"
      using jk by (simp add: rk_def)
    moreover have "f_last_accessed rj \<le> f_last_accessed rk"
      using last_take_mono [OF s jk] by (simp add: rj_def rk_def)
    ultimately show "\<exists>rj rk. getSharedFile False fid (increment_calls (take j ts) fid d) = Inr (Some rj) \<and>
                 getSharedFile False fid (increment_calls (take k ts) fid d) = Inr (Some rk) \<and>
                 f_download_count rk = f_download_count r + k \<and>
                 f_last_accessed rj \<le> f_last_accessed rk"
      by blast
  qed
  have fresh: "\<forall>fd t0 x d1. createSharedFile False t0 fd d = (Inr x, d1) \<longrightarrow>
        (\<exists>r1. getSharedFile False (d_fileId fd) (increment_calls ts (d_fileId fd) d1) =
                 Inr (Some r1) \<and>
              f_download_count r1 = length ts)"
  proof (intro allI impI)
    fix fd t0 x d1
    assume "createSharedFile False t0 fd d = (Inr x, d1)"
    then obtain r0 where r0: "getSharedFile False (d_fileId fd) d1 = Inr (Some r0)"
      "f_download_count r0 = 0"
      using createSharedFile_fresh_row by blast
    from increment_calls_row [OF r0(1), of ts] r0(2)
    show "\<exists>r1. getSharedFile False (d_fileId fd) (increment_calls ts (d_fileId fd) d1) =
                 Inr (Some r1) \<and> f_download_count r1 = length ts"
      by simp
  qed
  from one many mono fresh show ?thesis by blast
qed

theorem incrementDownloadCount_counts_witness:
  "db_inv (db ex_shared) \<and>
   incrementDownloadCount False 150 ''id1'' (db ex_shared) =
     (Inr 1, snd (incrementDownloadCount False 150 ''id1'' (db ex_shared))) \<and>
   (\<exists>r. getSharedFile False ''id1'' (increment_calls [150, 160, 160] ''id1'' (db ex_shared)) =
          Inr (Some r) \<and> f_download_count r = 3 \<and> f_last_accessed r = 160)"
proof -
  have inv: "db_inv (db ex_shared)" by (rule ex_shared_inv)
  have row: "\<exists>r. getSharedFile False ''id1'' (db ex_shared) = Inr (Some r) \<and>
      f_download_count r = 0"
    by (simp add: ex_shared_eq getSharedFile_def)
  from incrementDownloadCount_counts [OF inv, of 150 "''id1''" "[150, 160, 160]"] row
  have "incrementDownloadCount False 150 ''id1'' (db ex_shared) =
     (Inr 1, snd (incrementDownloadCount False 150 ''id1'' (db ex_shared)))"
    and "\<exists>r. getSharedFile False ''id1'' (increment_calls [150, 160, 160] ''id1'' (db ex_shared)) =
          Inr (Some r) \<and> f_download_count r = 3 \<and> f_last_accessed r = 160"
    by auto
  with inv show ?thesis by blast
qed

section \<open>LIKE and searchFiles\<close>

lemma like_percent_only: "like ''%'' s"
  by (induction s) auto

lemma like_percent: "like (CHR ''%'' # ps) s \<longleftrightarrow> (\<exists>a b. s = a @ b \<and> like ps b)"
proof (induction s)
  case Nil
  then show ?case by simp
next
  case (Cons c s)
  have "like (CHR ''%'' # ps) (c # s) \<longleftrightarrow> like ps (c # s) \<or> like (CHR ''%'' # ps) s"
    by simp
  also have "\<dots> \<longleftrightarrow> like ps (c # s) \<or> (\<exists>a b. s = a @ b \<and> like ps b)"
    using Cons.IH by simp
  also have "\<dots> \<longleftrightarrow> (\<exists>a b. c # s = a @ b \<and> like ps b)"
  proof
    assume "like ps (c # s) \<or> (\<exists>a b. s = a @ b \<and> like ps b)"
    then show "\<exists>a b. c # s = a @ b \<and> like ps b"
    proof
      assume "like ps (c # s)"
      then have "c # s = [] @ (c # s) \<and> like ps (c # s)" by simp
      then show ?thesis by blast
    next
      assume "\<exists>a b. s = a @ b \<and> like ps b"
      then obtain a b where "s = a @ b" "like ps b" by blast
      then have "c # s = (c # a) @ b \<and> like ps b" by simp
      then show ?thesis by blast
    qed
  next
    assume "\<exists>a b. c # s = a @ b \<and> like ps b"
    then obtain a b where ab: "c # s = a @ b" "like ps b" by blast
    show "like ps (c # s) \<or> (\<exists>a b. s = a @ b \<and> like ps b)"
    proof (cases a)
      case Nil
      with ab show ?thesis by simp
    next
      case (Cons x a')
      with ab have "s = a' @ b" by simp
      with ab(2) show ?thesis by blast
    qed
  qed
  finally show ?case .
qed

lemma like_plain:
  "plain_term t \<Longrightarrow>
   like (t @ ps) s \<longleftrightarrow>
     (\<exists>u v. s = u @ v \<and> map lower_ascii u = map lower_ascii t \<and> like ps v)"
proof (induction t arbitrary: s)
  case Nil
  then show ?case by simp
next
  case (Cons p t)
  then have p: "p \<noteq> CHR ''%''" "p \<noteq> CHR ''_''" and t: "plain_term t"
    by (auto simp: plain_term_def)
  show ?case
  proof (cases s)
    case Nil
    with p show ?thesis by simp
  next
    case (Cons c s')
    have "like ((p # t) @ ps) s \<longleftrightarrow> lower_ascii p = lower_ascii c \<and> like (t @ ps) s'"
      using p Cons by simp
    also have "\<dots> \<longleftrightarrow> lower_ascii p = lower_ascii c \<and>
        (\<exists>u v. s' = u @ v \<and> map lower_ascii u = map lower_ascii t \<and> like ps v)"
      using Cons.IH [OF t] by simp
    also have "\<dots> \<longleftrightarrow>
        (\<exists>u v. s = u @ v \<and> map lower_ascii u = map lower_ascii (p # t) \<and> like ps v)"
    proof
      assume "lower_ascii p = lower_ascii c \<and>
        (\<exists>u v. s' = u @ v \<and> map lower_ascii u = map lower_ascii t \<and> like ps v)"
      then obtain u v where "lower_ascii p = lower_ascii c" "s' = u @ v"
        "map lower_ascii u = map lower_ascii t" "like ps v" by blast
      then have "s = (c # u) @ v \<and> map lower_ascii (c # u) = map lower_ascii (p # t) \<and> like ps v"
        using Cons by simp
      then show "\<exists>u v. s = u @ v \<and> map lower_ascii u = map lower_ascii (p # t) \<and> like ps v"
        by blast
    next
      assume "\<exists>u v. s = u @ v \<and> map lower_ascii u = map lower_ascii (p # t) \<and> like ps v"
      then obtain u v where uv: "s = u @ v" "map lower_ascii u = map lower_ascii (p # t)"
        "like ps v" by blast
      from uv(2) obtain x u' where u: "u = x # u'" by (cases u) auto
      with uv Cons have "x = c" "s' = u' @ v" "lower_ascii p = lower_ascii c"
        "map lower_ascii u' = map lower_ascii t" by auto
      with uv(3) show "lower_ascii p = lower_ascii c \<and>
        (\<exists>u v. s' = u @ v \<and> map lower_ascii u = map lower_ascii t \<and> like ps v)"
        by blast
    qed
    finally show ?thesis .
  qed
qed

lemma like_substring:
  assumes "plain_term t"
  shows "like (''%'' @ t @ ''%'') s \<longleftrightarrow> includesStr (map lower_ascii s) (map lower_ascii t)"
proof -
  have "like (''%'' @ t @ ''%'') s \<longleftrightarrow> (\<exists>a b. s = a @ b \<and> like (t @ ''%'') b)"
    using like_percent [of "t @ ''%''" s] by simp
  also have "\<dots> \<longleftrightarrow> (\<exists>a u v. s = a @ u @ v \<and> map lower_ascii u = map lower_ascii t)"
    using like_plain [OF assms, of "''%''"] like_percent_only by auto
  also have "\<dots> \<longleftrightarrow> (\<exists>a' b'. map lower_ascii s = a' @ map lower_ascii t @ b')"
  proof
    assume "\<exists>a u v. s = a @ u @ v \<and> map lower_ascii u = map lower_ascii t"
    then obtain a u v where "s = a @ u @ v" "map lower_ascii u = map lower_ascii t" by blast
    then have "map lower_ascii s = map lower_ascii a @ map lower_ascii t @ map lower_ascii v"
      by simp
    then show "\<exists>a' b'. map lower_ascii s = a' @ map lower_ascii t @ b'" by blast
  next
    assume "\<exists>a' b'. map lower_ascii s = a' @ map lower_ascii t @ b'"
    then obtain a' b' where "map lower_ascii s = a' @ map lower_ascii t @ b'" by blast
    then obtain a r where 1: "s = a @ r" "a' = map lower_ascii a"
        "map lower_ascii t @ b' = map lower_ascii r"
      unfolding map_eq_append_conv by blast
    from 1(3) have "map lower_ascii r = map lower_ascii t @ b'" by simp
    then obtain u v where 2: "r = u @ v" "map lower_ascii t = map lower_ascii u"
      unfolding map_eq_append_conv by blast
    with 1 have "s = a @ u @ v \<and> map lower_ascii u = map lower_ascii t" by simp
    then show "\<exists>a u v. s = a @ u @ v \<and> map lower_ascii u = map lower_ascii t" by blast
  qed
  also have "\<dots> \<longleftrightarrow> includesStr (map lower_ascii s) (map lower_ascii t)"
    by (simp add: includesStr_iff)
  finally show ?thesis .
qed

lemma sorted_desc_order_by:
  "sorted_wrt (\<lambda>a b. f_created_at b \<le> f_created_at a) (order_by_created_at_desc rows)"
proof -
  have "sorted (map (\<lambda>r. - f_created_at r) (sort_key (\<lambda>r. - f_created_at r) rows))"
    by (rule sorted_sort_key)
  then show ?thesis
    by (simp add: order_by_created_at_desc_def sorted_wrt_map)
qed

lemma set_order_by [simp]: "set (order_by_created_at_desc rows) = set rows"
  by (simp add: order_by_created_at_desc_def)

lemma searchFiles_sound:
  assumes "searchFiles False uid term d = Inr rows"
  shows "length rows \<le> 20"
    and "sorted_wrt (\<lambda>a b. f_created_at b \<le> f_created_at a) rows"
    and "\<forall>r \<in> set rows. r \<in> set (shared_files d) \<and> f_user_id r = uid \<and>
           (like (''%'' @ term @ ''%'') (f_original_name r) \<or>
            like_opt (''%'' @ term @ ''%'') (f_description r) \<or>
            like_opt (''%'' @ term @ ''%'') (f_category r))"
proof -
  define hits where "hits = filter (\<lambda>r. f_user_id r = uid \<and>
                           (like (''%'' @ term @ ''%'') (f_original_name r) \<or>
                            like_opt (''%'' @ term @ ''%'') (f_description r) \<or>
                            like_opt (''%'' @ term @ ''%'') (f_category r))) (shared_files d)"
  from assms have rows: "rows = take 20 (order_by_created_at_desc hits)"
    by (simp add: searchFiles_def hits_def Let_def)
  show "length rows \<le> 20" by (simp add: rows)
  show "sorted_wrt (\<lambda>a b. f_created_at b \<le> f_created_at a) rows"
    unfolding rows by (rule sorted_wrt_take) (rule sorted_desc_order_by)
  have "set rows \<subseteq> set hits"
    unfolding rows using set_take_subset [of 20 "order_by_created_at_desc hits"] by simp
  then show "\<forall>r \<in> set rows. r \<in> set (shared_files d) \<and> f_user_id r = uid \<and>
           (like (''%'' @ term @ ''%'') (f_original_name r) \<or>
            like_opt (''%'' @ term @ ''%'') (f_description r) \<or>
            like_opt (''%'' @ term @ ''%'') (f_category r))"
    by (auto simp: hits_def)
qed

text \<open>
  For a search term without \<open>%\<close> and \<open>_\<close> the rows \<open>searchFiles\<close> returns are rows of
  the owner in which the term occurs, compared without regard to ASCII case, in the name,
  the description or the category.
\<close>

lemma searchFiles_plain_term:
  assumes "plain_term term" "searchFiles False uid term d = Inr rows" "r \<in> set rows"
  shows "f_user_id r = uid \<and>
         (includesStr (map lower_ascii (f_original_name r)) (map lower_ascii term) \<or>
          (\<exists>s. f_description r = Some s \<and>
               includesStr (map lower_ascii s) (map lower_ascii term)) \<or>
          (\<exists>s. f_category r = Some s \<and>
               includesStr (map lower_ascii s) (map lower_ascii term)))"
proof -
  from searchFiles_sound(3) [OF assms(2)] assms(3)
  have "f_user_id r = uid" and
    "like (''%'' @ term @ ''%'') (f_original_name r) \<or>
     like_opt (''%'' @ term @ ''%'') (f_description r) \<or>
     like_opt (''%'' @ term @ ''%'') (f_category r)"
    by blast+
  then show ?thesis
    unfolding like_opt_def using like_substring [OF assms(1)]
    by (auto split: option.splits)
qed

text \<open>
  Claim C7 on the code. The search term is pasted into the \<open>LIKE\<close> pattern as it is, so
  a \<open>_\<close> or \<open>%\<close> in it acts as a wildcard. Searching the files of \<open>u1\<close> for \<open>_\<close>
  returns the file named \<open>a\<close>, although \<open>_\<close> occurs neither in its name, nor in its
  description, nor in its category.
\<close>

theorem searchFiles_wildcard_term:
  "\<exists>r. searchFiles False ''u1'' ''_'' ex_search_db = Inr [r] \<and>
        f_user_id r = ''u1'' \<and> f_original_name r = ''a'' \<and>
        f_description r = Some [] \<and> f_category r = Some ''other'' \<and>
        \<not> includesStr (map lower_ascii ''a'') (map lower_ascii ''_'') \<and>
        \<not> includesStr (map lower_ascii []) (map lower_ascii ''_'') \<and>
        \<not> includesStr (map lower_ascii ''other'') (map lower_ascii ''_'')"
  by (simp add: ex_search_db_def searchFiles_def createSharedFile_def empty_db_def next_rowid_def
      order_by_created_at_desc_def like_opt_def lower_ascii_def startsWith_def Let_def)

section \<open>Statistics of an owner without files\<close>

text \<open>
  The helper alone: for an owner without rows \<open>COUNT(*)\<close> is 0 and both sums are
  \<open>NULL\<close>. The route replaces them by 0 (\<open>|| 0\<close>).
\<close>

lemma getUserFileStats_no_rows:
  assumes "\<forall>r\<in>set (shared_files d). f_user_id r \<noteq> uid"
  shows "getUserFileStats False uid d =
           Inr \<lparr>total_files = 0, total_size = None, total_downloads = None\<rparr>"
proof -
  from assms have "filter (\<lambda>r. f_user_id r = uid) (shared_files d) = []"
    by (simp add: filter_empty_conv)
  then show ?thesis
    by (simp add: getUserFileStats_def sql_sum_def)
qed

lemma getUserSharedFiles_no_rows:
  assumes "\<forall>r\<in>set (shared_files d). f_user_id r \<noteq> uid"
  shows "getUserSharedFiles False uid lim off d = Inr []"
proof -
  from assms have "filter (\<lambda>r. f_user_id r = uid) (shared_files d) = []"
    by (simp add: filter_empty_conv)
  then show ?thesis
    by (simp add: getUserSharedFiles_def order_by_created_at_desc_def limit_offset_def)
qed

lemma files_stats_zeros:
  assumes "\<forall>r\<in>set (shared_files (db w)). f_user_id r \<noteq> uid"
    and "\<not> env_fails e OpGetUserFileStats" "\<not> env_fails e OpGetUserSharedFiles"
  shows "files_stats e uid w =
           (Json_stats \<lparr>s_totalFiles = 0, s_totalSize = 0, s_formattedTotalSize = ''0 Bytes'',
                         s_totalDownloads = 0, s_recentFiles = []\<rparr>, w)"
  using assms getUserFileStats_no_rows [OF assms(1)] getUserSharedFiles_no_rows [OF assms(1), of 5 0]
  by (simp add: files_stats_def or_zero_def formatFileSize_def)

text \<open>
  Claim C8 as stated fails: for an owner with no shared files the repository query
  \<open>getUserFileStats\<close> returns the count 0, but the total size and the total downloads
  are null (\<open>SUM\<close> over no rows), not the number 0.
\<close>

theorem getUserFileStats_null_sums_counterexample:
  "getUserFileStats False ''u2'' (db ex_shared) =
     Inr \<lparr>total_files = 0, total_size = None, total_downloads = None\<rparr> \<and>
   getUserFileStats False ''u2'' (db ex_shared) \<noteq>
     Inr \<lparr>total_files = 0, total_size = Some 0, total_downloads = Some 0\<rparr>"
  by (simp add: ex_shared_eq getUserFileStats_def sql_sum_def)

text \<open>
  Claim C8, amended. For every owner with no shared files, \<open>getUserFileStats\<close> returns
  the count 0 and null for both the total size and the total downloads; the route
  \<open>GET /stats/:userId\<close> replaces each null by 0 (\<open>|| 0\<close>), so that its response carries
  the file count, the total size and the total downloads all equal to the number 0, when
  its two queries run without an engine error.
\<close>

theorem getUserFileStats_no_files:
  assumes "\<forall>r\<in>set (shared_files (db w)). f_user_id r \<noteq> uid"
  shows
    "getUserFileStats False uid (db w) =
       Inr \<lparr>total_files = 0, total_size = None, total_downloads = None\<rparr>
   \<and> (\<not> env_fails e OpGetUserFileStats \<and> \<not> env_fails e OpGetUserSharedFiles \<longrightarrow>
        files_stats e uid w =
          (Json_stats \<lparr>s_totalFiles = 0, s_totalSize = 0, s_formattedTotalSize = ''0 Bytes'',
                        s_totalDownloads = 0, s_recentFiles = []\<rparr>, w))"
  using getUserFileStats_no_rows [OF assms] files_stats_zeros [OF assms, of e] by blast

theorem getUserFileStats_no_files_witness:
  "''u2'' \<notin> set (map f_user_id (shared_files (db ex_shared))) \<and>
   \<not> env_fails (ex_env 300 ''x'' []) OpGetUserFileStats \<and>
   \<not> env_fails (ex_env 300 ''x'' []) OpGetUserSharedFiles \<and>
   getUserFileStats False ''u2'' (db ex_shared) =
     Inr \<lparr>total_files = 0, total_size = None, total_downloads = None\<rparr> \<and>
   files_stats (ex_env 300 ''x'' []) ''u2'' ex_shared =
     (Json_stats \<lparr>s_totalFiles = 0, s_totalSize = 0, s_formattedTotalSize = ''0 Bytes'',
                   s_totalDownloads = 0, s_recentFiles = []\<rparr>, ex_shared)"
proof -
  have h1: "\<forall>r\<in>set (shared_files (db ex_shared)). f_user_id r \<noteq> ''u2''"
    by (simp add: ex_shared_eq)
  have h2: "\<not> env_fails (ex_env 300 ''x'' []) OpGetUserFileStats"
    and h3: "\<not> env_fails (ex_env 300 ''x'' []) OpGetUserSharedFiles"
    by (simp_all add: ex_env_def)
  have h0: "''u2'' \<notin> set (map f_user_id (shared_files (db ex_shared)))"
    by (simp add: ex_shared_eq)
  from getUserFileStats_no_files [OF h1, of "ex_env 300 ''x'' []"] h0 h2 h3
  show ?thesis by blast
qed

section \<open>Upload: a failed insert after a successful write\<close>

text \<open>
  Claim C1 as stated fails: the route has no rollback. With the write succeeding and
  \<open>createSharedFile\<close> rejected, the handler answers 500 and the file it has just
  written stays on disk, without a row: the blob store is not unchanged, and no removal
  was performed.
\<close>

theorem files_upload_orphan_counterexample:
  "fst ex_failed_upload = Json_error 500 ''Failed to upload file'' \<and>
   files empty_world ''uploads/shared/id1.txt'' = None \<and>
   files (snd ex_failed_upload) ''uploads/shared/id1.txt'' = Some [104, 105] \<and>
   shared_files (db (snd ex_failed_upload)) = [] \<and>
   trace (snd ex_failed_upload) = [FsWrite ''uploads/shared/id1.txt'']"
  by (simp add: ex_failed_upload_def handler_defs)

text \<open>
  Claim C1, amended. For every shared-file upload in which the blob write succeeds and the
  metadata insert fails (an engine error, or a \<open>file_id\<close> already in the table), the
  handler reports the error with status 500 and performs no other effect: the database is
  unchanged, and the just-written blob remains at its path; the only effect logged is the
  write.
\<close>

theorem files_upload_create_failure:
  assumes "u \<noteq> []" and "\<not> env_fails e OpWriteFile"
    and "env_fails e OpCreateSharedFile \<or> env_uuid e \<in> f_file_id ` set (shared_files (db w))"
  shows "files_upload e (Some u) description (Some f) w =
           (Json_error 500 ''Failed to upload file'',
            w\<lparr>files := (files w)
                  (''uploads/shared/'' @ env_uuid e @ extname (up_originalname f) :=
                     Some (up_buffer f)),
              trace := trace w @
                  [FsWrite (''uploads/shared/'' @ env_uuid e @ extname (up_originalname f))]\<rparr>)"
  using assms
  by (auto simp: files_upload_def fs_writeFile_def db_run_def createSharedFile_def Let_def)

theorem files_upload_create_failure_witness:
  "''u1'' \<noteq> [] \<and> \<not> env_fails (ex_env 100 ''id1'' [OpCreateSharedFile]) OpWriteFile \<and>
   env_fails (ex_env 100 ''id1'' [OpCreateSharedFile]) OpCreateSharedFile \<and>
   files_upload (ex_env 100 ''id1'' [OpCreateSharedFile]) (Some ''u1'') None (Some ex_upload)
       empty_world =
     (Json_error 500 ''Failed to upload file'',
      empty_world\<lparr>files := (files empty_world)(''uploads/shared/id1.txt'' := Some [104, 105]),
                   trace := [FsWrite ''uploads/shared/id1.txt'']\<rparr>)"
proof -
  have h1: "''u1'' \<noteq> []" by simp
  have h2: "\<not> env_fails (ex_env 100 ''id1'' [OpCreateSharedFile]) OpWriteFile"
    by (simp add: ex_env_def)
  have h3: "env_fails (ex_env 100 ''id1'' [OpCreateSharedFile]) OpCreateSharedFile"
    by (simp add: ex_env_def)
  have h3': "env_fails (ex_env 100 ''id1'' [OpCreateSharedFile]) OpCreateSharedFile \<or>
      env_uuid (ex_env 100 ''id1'' [OpCreateSharedFile])
        \<in> f_file_id ` set (shared_files (db empty_world))"
    using h3 by simp
  from files_upload_create_failure [OF h1 h2 h3', of None ex_upload]
  have "files_upload (ex_env 100 ''id1'' [OpCreateSharedFile]) (Some ''u1'') None (Some ex_upload)
       empty_world =
     (Json_error 500 ''Failed to upload file'',
      empty_world\<lparr>files := (files empty_world)(''uploads/shared/id1.txt'' := Some [104, 105]),
                   trace := [FsWrite ''uploads/shared/id1.txt'']\<rparr>)"
    by (simp add: ex_env_def ex_upload_def extname_def basename_def empty_world_def)
  with h1 h2 h3 show ?thesis by blast
qed

section \<open>Delete: the order of the two removals\<close>









section \<open>Delete: the second call\<close>




section \<open>Replacing a profile picture\<close>









text \<open>
  The message of a failing \<open>open\<close> names the path, and the path holds the \<open>userId\<close>: for
  the caller who calls himself \<open>Only image files\<close> the failure of the write is answered
  400 with the raw message.
\<close>

lemma profile_write_fails_named:
  "profile_upload_picture ex_env_named (Some ''Only image files'') None None (Some ex_picture)
     empty_world =
   (Json_error 400
      (''ENOENT: no such file or directory, open '' @ [CHR 0x27] @
       ''/srv/uploads/profiles/profile_Only image files_p3.png'' @ [CHR 0x27]),
    empty_world)"
  by (simp add: profile_upload_picture_def fs_writeFile_def profile_catch_def ex_env_named_def
      startsWith_def Let_def)




end
